theory Spec2Isabelle
  imports Main "HOL-Library.Sublist" "HOL-Library.AList"
begin

section \<open>The MRIQC request handler of azure\_mriqc\_server.py\<close>

text \<open>
  The module is one Flask handler, \<^verbatim>\<open>run_mriqc\<close>, that glues three collaborators
  together: the file system, the zip codec and the container runtime. The embedding
  keeps the handler's eight numbered steps in the order of the source and makes every
  effect explicit:
  \<^item> the file system is a value that is passed along and returned;
  \<^item> every call that has an effect is appended to a log, so that "this step was not
    performed" and "this step came first" are statements about the log;
  \<^item> an exception that the handler does not catch ends the request with
    \<open>Unhandled\<close>;
  \<^item> the zip reader and the external process are parameters (an \<open>env\<close>): the
    handler is verified for every behaviour they may have;
  \<^item> every file and directory carries its modification time, the world has a clock,
    and the archive that is sent records the times of its members, as a zip archive does.
\<close>

subsection \<open>Data\<close>

type_synonym bytes = string

text \<open>
  A file system is a list of absolute paths with what is stored there, a file's bytes or
  a directory, and the time of its last modification (in ticks of the clock, the
  resolution of an archive's time stamps). The order of the list is the order in which a
  directory is enumerated; nothing is assumed about it. Owners and permissions are not
  modelled: the process may read, write and delete what is under its two workspaces.
\<close>

datatype entry = File bytes | Dir

type_synonym node = "entry \<times> nat"

type_synonym filesystem = "(string \<times> node) list"

datatype exn =
    FileExistsError
  | FileNotFoundError
  | IsADirectoryError
  | NotADirectoryError
  | BadZipFile
  | OSError string

datatype call =
    Rmtree string
  | Makedirs string
  | Save string
  | Extractall string string
  | Run "string list"
  | MakeArchive string string string
  | SendFile string

text \<open>
  The world of a request: the file system, the log of the calls, and the time at which
  the request is served. Time passes between requests, not within one.
\<close>

record world =
  disk :: filesystem
  calls :: "call list"
  now :: nat

text \<open>werkzeug's \<^verbatim>\<open>FileStorage\<close>: the part's file name and its content.\<close>

record file_storage =
  filename :: string
  stream :: bytes

text \<open>
  \<^verbatim>\<open>request.files\<close> and \<^verbatim>\<open>request.form\<close> are multi-dicts: a field may
  occur several times and \<^verbatim>\<open>get\<close> returns the first occurrence.
\<close>

record request =
  files :: "(string \<times> file_storage) list"
  form :: "(string \<times> string) list"

text \<open>\<^verbatim>\<open>subprocess.CompletedProcess\<close> with \<^verbatim>\<open>capture_output=True, text=True\<close>.\<close>

record completed_process =
  returncode :: int
  stdout :: string
  stderr :: string

datatype body =
    Json "(string \<times> string) list"
  | Attachment string bytes

record response =
  body :: body
  status :: nat

datatype outcome = Response response | Unhandled exn

text \<open>
  The collaborators the handler calls but does not implement:
  \<^item> \<open>cwd\<close>: the working directory of the process, which \<^verbatim>\<open>Path.absolute\<close> puts in
    front of a relative path;
  \<^item> \<open>extractall\<close>: \<^verbatim>\<open>zipfile.ZipFile(zip_path).extractall(dest)\<close>, which reads the
    archive from the file system at the current time and either raises or leaves a new
    file system;
  \<^item> \<open>subprocess_run\<close>: \<^verbatim>\<open>subprocess.run(cmd, capture_output=True, text=True)\<close>,
    which receives the argument vector as a list and runs at the current time on the
    file system; it either raises (the executable is missing) or returns the completed
    process and the file system it left.
\<close>

record env =
  cwd :: string
  extractall :: "string \<Rightarrow> string \<Rightarrow> nat \<Rightarrow> filesystem \<Rightarrow> exn + filesystem"
  subprocess_run ::
    "string list \<Rightarrow> nat \<Rightarrow> filesystem \<Rightarrow> exn + (completed_process \<times> filesystem)"

subsection \<open>Module constants\<close>

definition UPLOAD_FOLDER :: string where
  "UPLOAD_FOLDER = ''/tmp/mriqc_upload''"

definition OUTPUT_FOLDER :: string where
  "OUTPUT_FOLDER = ''/tmp/mriqc_output''"

subsection \<open>Paths and strings\<close>

text \<open>\<^verbatim>\<open>os.path.join(a, b)\<close> for a relative \<open>b\<close> and an \<open>a\<close> that does not end in a slash.\<close>

definition path_join :: "string \<Rightarrow> string \<Rightarrow> string" where
  "path_join a b = a @ ''/'' @ b"

text \<open>\<^verbatim>\<open>Path.absolute\<close>: an absolute path is returned as it is.\<close>

definition absolute :: "env \<Rightarrow> string \<Rightarrow> string" where
  "absolute E p = (if prefix ''/'' p then p else path_join (cwd E) p)"

text \<open>\<^verbatim>\<open>os.path.basename\<close>: what follows the last slash.\<close>

definition basename :: "string \<Rightarrow> string" where
  "basename p = rev (takeWhile (\<lambda>c. c \<noteq> CHR ''/'') (rev p))"

text \<open>
  \<^verbatim>\<open>str.replace(old, new)\<close>: every non-overlapping occurrence of \<open>old\<close>, from the
  left. The counter is the number of characters of a matched occurrence still to be
  skipped. With an empty \<open>old\<close> Python puts \<open>new\<close> before every character and at the end.
\<close>

fun replace_from :: "string \<Rightarrow> string \<Rightarrow> nat \<Rightarrow> string \<Rightarrow> string" where
  "replace_from old new k [] = []"
| "replace_from old new k (c # cs) =
     (if 0 < k then replace_from old new (k - 1) cs
      else if prefix old (c # cs) then new @ replace_from old new (length old - 1) cs
      else c # replace_from old new 0 cs)"

definition str_replace :: "string \<Rightarrow> string \<Rightarrow> string \<Rightarrow> string" where
  "str_replace old new s =
     (if old = [] then new @ concat (map (\<lambda>c. c # new) s) else replace_from old new 0 s)"

subsection \<open>The archive\<close>

text \<open>
  The format of the archive that is sent stands for the zip container. It keeps what a
  zip archive stores of a member and a reader gets back: the name, whether it is a
  directory, the modification time and the data. The archive starts with the number of
  its members; a number is written in unary and a string with its length in front, so
  that the reader is structural.
\<close>

fun put_nat :: "nat \<Rightarrow> bytes" where
  "put_nat 0 = ''0''"
| "put_nat (Suc n) = CHR ''1'' # put_nat n"

fun get_nat :: "bytes \<Rightarrow> (nat \<times> bytes) option" where
  "get_nat [] = None"
| "get_nat (c # cs) =
     (if c = CHR ''0'' then Some (0, cs)
      else if c = CHR ''1'' then
        (case get_nat cs of Some (n, r) \<Rightarrow> Some (Suc n, r) | None \<Rightarrow> None)
      else None)"

definition put_str :: "string \<Rightarrow> bytes" where
  "put_str s = put_nat (length s) @ s"

definition get_str :: "bytes \<Rightarrow> (string \<times> bytes) option" where
  "get_str b =
     (case get_nat b of
        Some (n, r) \<Rightarrow> if n \<le> length r then Some (take n r, drop n r) else None
      | None \<Rightarrow> None)"

fun put_member :: "string \<times> entry \<times> nat \<Rightarrow> bytes" where
  "put_member (name, File c, t) = CHR ''F'' # put_str name @ put_nat t @ put_str c"
| "put_member (name, Dir, t) = CHR ''D'' # put_str name @ put_nat t"

definition get_member :: "bytes \<Rightarrow> ((string \<times> entry \<times> nat) \<times> bytes) option" where
  "get_member b =
     (case b of
        [] \<Rightarrow> None
      | k # r \<Rightarrow>
          (case get_str r of
             None \<Rightarrow> None
           | Some (name, r1) \<Rightarrow>
               (case get_nat r1 of
                  None \<Rightarrow> None
                | Some (t, r2) \<Rightarrow>
                    if k = CHR ''D'' then Some ((name, Dir, t), r2)
                    else if k = CHR ''F'' then
                      (case get_str r2 of
                         None \<Rightarrow> None
                       | Some (c, r3) \<Rightarrow> Some ((name, File c, t), r3))
                    else None)))"

fun get_members :: "nat \<Rightarrow> bytes \<Rightarrow> ((string \<times> entry \<times> nat) list \<times> bytes) option" where
  "get_members 0 b = Some ([], b)"
| "get_members (Suc n) b =
     (case get_member b of
        None \<Rightarrow> None
      | Some (m, r) \<Rightarrow>
          (case get_members n r of
             None \<Rightarrow> None
           | Some (ms, r') \<Rightarrow> Some (m # ms, r')))"

definition zip_encode :: "(string \<times> entry \<times> nat) list \<Rightarrow> bytes" where
  "zip_encode l = put_nat (length l) @ concat (map put_member l)"

definition zip_decode :: "bytes \<Rightarrow> (string \<times> entry \<times> nat) list option" where
  "zip_decode b =
     (case get_nat b of
        None \<Rightarrow> None
      | Some (n, r) \<Rightarrow>
          (case get_members n r of
             Some (ms, []) \<Rightarrow> Some ms
           | _ \<Rightarrow> None))"

subsection \<open>The file system\<close>

definition is_dir :: "filesystem \<Rightarrow> string \<Rightarrow> bool" where
  "is_dir d p = (case map_of d p of Some (Dir, t) \<Rightarrow> True | _ \<Rightarrow> False)"

definition is_file :: "filesystem \<Rightarrow> string \<Rightarrow> bool" where
  "is_file d p = (case map_of d p of Some (File b, t) \<Rightarrow> True | _ \<Rightarrow> False)"

text \<open>\<open>below p q\<close>: \<open>q\<close> lies strictly under the directory \<open>p\<close>.\<close>

definition below :: "string \<Rightarrow> string \<Rightarrow> bool" where
  "below p q = (prefix (p @ ''/'') q \<and> q \<noteq> p @ ''/'')"

definition at_or_below :: "string \<Rightarrow> string \<Rightarrow> bool" where
  "at_or_below p q = (q = p \<or> below p q)"

text \<open>\<open>child_of p q\<close>: \<open>q\<close> is an immediate child of \<open>p\<close>.\<close>

definition child_of :: "string \<Rightarrow> string \<Rightarrow> bool" where
  "child_of p q = (below p q \<and> CHR ''/'' \<notin> set (drop (length p + 1) q))"

text \<open>
  The content of a directory, with paths relative to it, in enumeration order: the
  members of an archive of the directory. (The list may hold anything at a path, so that
  the same function lists a file system whose modification times are left out.)
\<close>

definition listing :: "string \<Rightarrow> (string \<times> 'a) list \<Rightarrow> (string \<times> 'a) list" where
  "listing p d = map (\<lambda>(q, e). (drop (length p + 1) q, e)) (filter (\<lambda>(q, e). below p q) d)"

text \<open>
  \<^verbatim>\<open>shutil.rmtree(p, ignore_errors=True)\<close>: a directory goes with everything under
  it; a missing path is no error; on a regular file the call fails, the failure is
  ignored and the file stays. The call returns nothing and never raises.
\<close>

definition rmtree :: "string \<Rightarrow> world \<Rightarrow> world" where
  "rmtree p w =
     w\<lparr>disk := (if is_file (disk w) p then disk w
                else filter (\<lambda>(q, e). \<not> at_or_below p q) (disk w)),
       calls := calls w @ [Rmtree p]\<rparr>"

text \<open>
  \<^verbatim>\<open>os.makedirs(p, exist_ok=True)\<close>: an existing directory is kept, a regular file
  in the way raises. The parent of both workspaces is \<^verbatim>\<open>/tmp\<close>, which exists.
\<close>

definition makedirs :: "string \<Rightarrow> world \<Rightarrow> (exn + unit) \<times> world" where
  "makedirs p w =
     (let w' = w\<lparr>calls := calls w @ [Makedirs p]\<rparr> in
      case map_of (disk w) p of
        Some (Dir, t) \<Rightarrow> (Inr (), w')
      | Some (File b, t) \<Rightarrow> (Inl FileExistsError, w')
      | None \<Rightarrow> (Inr (), w'\<lparr>disk := disk w @ [(p, Dir, now w)]\<rparr>))"

text \<open>Opening a path for writing and storing bytes there at time \<open>t\<close>.\<close>

definition write_file :: "string \<Rightarrow> bytes \<Rightarrow> nat \<Rightarrow> filesystem \<Rightarrow> exn + filesystem" where
  "write_file p b t d =
     (if is_dir d p then Inl IsADirectoryError else Inr (AList.update p (File b, t) d))"

text \<open>\<^verbatim>\<open>FileStorage.save(dst)\<close>.\<close>

definition save :: "file_storage \<Rightarrow> string \<Rightarrow> world \<Rightarrow> (exn + unit) \<times> world" where
  "save f dst w =
     (let w' = w\<lparr>calls := calls w @ [Save dst]\<rparr> in
      case write_file dst (stream f) (now w) (disk w) of
        Inl e \<Rightarrow> (Inl e, w')
      | Inr d \<Rightarrow> (Inr (), w'\<lparr>disk := d\<rparr>))"

text \<open>\<^verbatim>\<open>with zipfile.ZipFile(zip_path, 'r') as zf: zf.extractall(dest)\<close>.\<close>

definition unzip :: "env \<Rightarrow> string \<Rightarrow> string \<Rightarrow> world \<Rightarrow> (exn + unit) \<times> world" where
  "unzip E zip_path dest w =
     (let w' = w\<lparr>calls := calls w @ [Extractall zip_path dest]\<rparr> in
      case extractall E zip_path dest (now w) (disk w) of
        Inl e \<Rightarrow> (Inl e, w')
      | Inr d \<Rightarrow> (Inr (), w'\<lparr>disk := d\<rparr>))"

text \<open>\<^verbatim>\<open>Path(p).iterdir()\<close>: the immediate children, in enumeration order.\<close>

definition iterdir :: "string \<Rightarrow> filesystem \<Rightarrow> exn + string list" where
  "iterdir p d =
     (if is_dir d p then Inr (filter (child_of p) (map fst d))
      else if is_file d p then Inl NotADirectoryError
      else Inl FileNotFoundError)"

text \<open>
  The loop of step 5: the first item that is a directory, \<open>None\<close> when the loop ends
  without a \<^verbatim>\<open>break\<close>.
\<close>

fun first_dir :: "filesystem \<Rightarrow> string list \<Rightarrow> string option" where
  "first_dir d [] = None"
| "first_dir d (item # items) = (if is_dir d item then Some item else first_dir d items)"

definition find_bids_root :: "world \<Rightarrow> (exn + string option) \<times> world" where
  "find_bids_root w =
     (case iterdir UPLOAD_FOLDER (disk w) of
        Inl e \<Rightarrow> (Inl e, w)
      | Inr items \<Rightarrow> (Inr (first_dir (disk w) items), w))"

text \<open>\<^verbatim>\<open>subprocess.run(cmd, capture_output=True, text=True)\<close>: no shell is involved.\<close>

definition run :: "env \<Rightarrow> string list \<Rightarrow> world \<Rightarrow> (exn + completed_process) \<times> world" where
  "run E cmd w =
     (let w' = w\<lparr>calls := calls w @ [Run cmd]\<rparr> in
      case subprocess_run E cmd (now w) (disk w) of
        Inl e \<Rightarrow> (Inl e, w')
      | Inr (r, d) \<Rightarrow> (Inr r, w'\<lparr>disk := d\<rparr>))"

text \<open>
  \<^verbatim>\<open>shutil.make_archive(base_name, format, root_dir)\<close>: the archive of what is under
  \<open>root_dir\<close> is written to \<open>base_name\<close> with the format's extension, replacing a file
  that is there; the name of the archive is returned. The walk of a \<open>root_dir\<close> that
  is not a directory finds nothing, and the archive is empty.
\<close>

definition make_archive :: "string \<Rightarrow> string \<Rightarrow> string \<Rightarrow> world \<Rightarrow> (exn + string) \<times> world" where
  "make_archive base_name format root_dir w =
     (let w' = w\<lparr>calls := calls w @ [MakeArchive base_name format root_dir]\<rparr>;
          archive = base_name @ ''.'' @ format;
          members = (if is_dir (disk w) root_dir then listing root_dir (disk w) else []) in
      case write_file archive (zip_encode members) (now w) (disk w) of
        Inl e \<Rightarrow> (Inl e, w')
      | Inr d \<Rightarrow> (Inr archive, w'\<lparr>disk := d\<rparr>))"

text \<open>\<^verbatim>\<open>send_file(path, as_attachment=True)\<close>: status 200, the file's bytes as the body.\<close>

definition send_file :: "string \<Rightarrow> world \<Rightarrow> (exn + response) \<times> world" where
  "send_file p w =
     (let w' = w\<lparr>calls := calls w @ [SendFile p]\<rparr> in
      case map_of (disk w) p of
        Some (File b, t) \<Rightarrow> (Inr \<lparr>body = Attachment (basename p) b, status = 200\<rparr>, w')
      | Some (Dir, t) \<Rightarrow> (Inl IsADirectoryError, w')
      | None \<Rightarrow> (Inl FileNotFoundError, w'))"

text \<open>\<^verbatim>\<open>return jsonify(obj), code\<close>.\<close>

definition jsonify :: "(string \<times> string) list \<Rightarrow> nat \<Rightarrow> response" where
  "jsonify obj code = \<lparr>body = Json obj, status = code\<rparr>"

subsection \<open>The request\<close>

text \<open>\<^verbatim>\<open>request.files.get(k)\<close> and \<^verbatim>\<open>request.form.get(k, default)\<close>.\<close>

definition files_get :: "request \<Rightarrow> string \<Rightarrow> file_storage option" where
  "files_get req k = map_of (files req) k"

definition form_get :: "request \<Rightarrow> string \<Rightarrow> string \<Rightarrow> string" where
  "form_get req k dflt = (case map_of (form req) k of Some v \<Rightarrow> v | None \<Rightarrow> dflt)"

text \<open>
  The truth value of the handler's \<^verbatim>\<open>bids_zip\<close>: \<^verbatim>\<open>None\<close> is false, and a
  \<^verbatim>\<open>FileStorage\<close> is true exactly when its file name is not empty.
\<close>

fun truthy :: "file_storage option \<Rightarrow> bool" where
  "truthy None = False"
| "truthy (Some f) = (filename f \<noteq> [])"

subsection \<open>The handler\<close>

text \<open>Sequencing: an exception of a step ends the request.\<close>

definition and_then ::
  "(exn + 'a) \<times> world \<Rightarrow> ('a \<Rightarrow> world \<Rightarrow> outcome \<times> world) \<Rightarrow> outcome \<times> world" where
  "and_then r k = (case r of (Inl e, w) \<Rightarrow> (Unhandled e, w) | (Inr x, w) \<Rightarrow> k x w)"

text \<open>Step 2, "Clean up old data".\<close>

definition clean_up :: "world \<Rightarrow> (exn + unit) \<times> world" where
  "clean_up w =
     (case makedirs UPLOAD_FOLDER (rmtree OUTPUT_FOLDER (rmtree UPLOAD_FOLDER w)) of
        (Inl e, w') \<Rightarrow> (Inl e, w')
      | (Inr u, w') \<Rightarrow> makedirs OUTPUT_FOLDER w')"

text \<open>Steps 3 and 4 on the clean workspaces: save the upload, extract it.\<close>

definition save_and_unzip :: "env \<Rightarrow> file_storage \<Rightarrow> world \<Rightarrow> (exn + unit) \<times> world" where
  "save_and_unzip E f w =
     (let zip_path = path_join UPLOAD_FOLDER ''bids_data.zip'' in
      case save f zip_path w of
        (Inl e, w') \<Rightarrow> (Inl e, w')
      | (Inr u, w') \<Rightarrow> unzip E zip_path UPLOAD_FOLDER w')"

text \<open>Steps 2 to 4.\<close>

definition prepare :: "env \<Rightarrow> file_storage \<Rightarrow> world \<Rightarrow> (exn + unit) \<times> world" where
  "prepare E f w =
     (case clean_up w of
        (Inl e, w') \<Rightarrow> (Inl e, w')
      | (Inr u, w') \<Rightarrow> save_and_unzip E f w')"

text \<open>The argument vector of step 6.\<close>

definition mriqc_cmd :: "env \<Rightarrow> string \<Rightarrow> string \<Rightarrow> string list" where
  "mriqc_cmd E bids_root subj_id =
     [''docker'', ''run'', ''--rm'',
      ''-v'', absolute E bids_root @ '':/data:ro'',
      ''-v'', absolute E OUTPUT_FOLDER @ '':/out'',
      ''nipreps/mriqc:22.0.6'',
      ''/data'', ''/out'',
      ''participant'',
      ''--participant_label'', subj_id,
      ''-m'', ''T1w'', ''T2w'', ''bold'']"

text \<open>Steps 6 to 8, once the input root is known.\<close>

definition run_and_pack :: "env \<Rightarrow> string \<Rightarrow> string \<Rightarrow> world \<Rightarrow> outcome \<times> world" where
  "run_and_pack E bids_root subj_id w =
     and_then (run E (mriqc_cmd E bids_root subj_id) w) (\<lambda>run_result w.
       if returncode run_result \<noteq> 0 then
         (Response (jsonify [(''error'', ''MRIQC failed''), (''stderr'', stderr run_result)] 500), w)
       else
         let result_zip_path = ''/tmp/mriqc_results.zip'' in
         and_then (make_archive (str_replace ''.zip'' [] result_zip_path) ''zip'' OUTPUT_FOLDER w)
           (\<lambda>archive w.
              and_then (send_file result_zip_path w) (\<lambda>resp w. (Response resp, w))))"

text \<open>
  The handler. \<^verbatim>\<open>not bids_zip\<close> is the negation of \<open>truthy\<close>; a \<^verbatim>\<open>Path\<close> is
  always true, so \<^verbatim>\<open>not bids_root\<close> holds exactly for \<^verbatim>\<open>None\<close>.
\<close>

definition run_mriqc :: "env \<Rightarrow> request \<Rightarrow> world \<Rightarrow> outcome \<times> world" where
  "run_mriqc E req w =
     (let bids_zip = files_get req ''bids_zip'';
          subj_id = form_get req ''participant_label'' ''01'' in
      case bids_zip of
        None \<Rightarrow> (Response (jsonify [(''error'', ''No BIDS zip provided'')] 400), w)
      | Some f \<Rightarrow>
          if \<not> truthy bids_zip then
            (Response (jsonify [(''error'', ''No BIDS zip provided'')] 400), w)
          else
            and_then (prepare E f w) (\<lambda>u w.
            and_then (find_bids_root w) (\<lambda>bids_root w.
              case bids_root of
                None \<Rightarrow>
                  (Response (jsonify [(''error'', ''No BIDS directory found after unzipping.'')] 400), w)
              | Some root \<Rightarrow> run_and_pack E root subj_id w)))"

text \<open>The calls a run added to the log.\<close>

definition new_calls :: "world \<Rightarrow> world \<Rightarrow> call list" where
  "new_calls w w' = drop (length (calls w)) (calls w')"

subsection \<open>Views of the file system\<close>

text \<open>
  \<open>view p d\<close> is the directory \<open>p\<close> with everything under it, \<open>rest p d\<close> is
  everything that is not under \<open>p\<close>; both keep the order of \<open>d\<close>. \<open>untimed\<close>
  forgets the modification times.
\<close>

definition view :: "string \<Rightarrow> (string \<times> 'a) list \<Rightarrow> (string \<times> 'a) list" where
  "view p d = filter (\<lambda>(q, e). at_or_below p q) d"

definition rest :: "string \<Rightarrow> (string \<times> 'a) list \<Rightarrow> (string \<times> 'a) list" where
  "rest p d = filter (\<lambda>(q, e). \<not> below p q) d"

definition untimed :: "filesystem \<Rightarrow> (string \<times> entry) list" where
  "untimed d = map (\<lambda>(q, e, t). (q, e)) d"

text \<open>
  The file system after steps 2 and 3 of a request that uploads \<open>f\<close> at time \<open>t\<close>: what
  was outside the two workspaces, then the two empty workspaces and the saved upload.
\<close>

definition staged :: "file_storage \<Rightarrow> nat \<Rightarrow> filesystem \<Rightarrow> filesystem" where
  "staged f t d =
     filter (\<lambda>(q, e). \<not> at_or_below OUTPUT_FOLDER q \<and> \<not> at_or_below UPLOAD_FOLDER q) d
     @ [(UPLOAD_FOLDER, Dir, t), (OUTPUT_FOLDER, Dir, t),
        (path_join UPLOAD_FOLDER ''bids_data.zip'', File (stream f), t)]"

subsection \<open>Contracts of the collaborators\<close>

text \<open>Extraction changes nothing that is not under the upload workspace.\<close>

definition extract_stays_in_upload :: "env \<Rightarrow> bool" where
  "extract_stays_in_upload E =
     (\<forall>t d a. extractall E (path_join UPLOAD_FOLDER ''bids_data.zip'') UPLOAD_FOLDER t d = Inr a \<longrightarrow>
        rest UPLOAD_FOLDER a = rest UPLOAD_FOLDER d)"

text \<open>
  Extraction is local to the upload workspace: whether it succeeds, and which files and
  directories with which contents it leaves there, depends only on the files and
  directories that are there (the saved archive included) and on their contents, not on
  the time and not on modification times.
\<close>

definition extract_is_local :: "env \<Rightarrow> bool" where
  "extract_is_local E =
     ((\<forall>t t' d d'. untimed (view UPLOAD_FOLDER d) = untimed (view UPLOAD_FOLDER d') \<longrightarrow>
         rel_sum (\<lambda>e e'. True)
           (\<lambda>a b. untimed (view UPLOAD_FOLDER a) = untimed (view UPLOAD_FOLDER b))
           (extractall E (path_join UPLOAD_FOLDER ''bids_data.zip'') UPLOAD_FOLDER t d)
           (extractall E (path_join UPLOAD_FOLDER ''bids_data.zip'') UPLOAD_FOLDER t' d'))
      \<and> extract_stays_in_upload E)"

text \<open>
  The tool is deterministic and sees its mounts only: its exit status, its captured
  output, and the files and directories it leaves in the output workspace with their
  contents, depend only on the argument vector and on the files and directories of the
  two workspaces with their contents; and it changes nothing that is not under the
  output workspace. The modification times of what it writes are free: a tool that
  stamps its files with the time of the run is deterministic in this sense.
\<close>

definition tool_is_local :: "env \<Rightarrow> bool" where
  "tool_is_local E =
     ((\<forall>cmd t t' d d'.
         untimed (view UPLOAD_FOLDER d) = untimed (view UPLOAD_FOLDER d') \<and>
         untimed (view OUTPUT_FOLDER d) = untimed (view OUTPUT_FOLDER d') \<longrightarrow>
         rel_sum (\<lambda>e e'. True)
           (\<lambda>x y. fst x = fst y \<and>
                  untimed (view OUTPUT_FOLDER (snd x)) = untimed (view OUTPUT_FOLDER (snd y)))
           (subprocess_run E cmd t d) (subprocess_run E cmd t' d'))
      \<and> (\<forall>cmd t d r a. subprocess_run E cmd t d = Inr (r, a) \<longrightarrow>
            rest OUTPUT_FOLDER a = rest OUTPUT_FOLDER d))"

subsection \<open>Stubbed collaborators\<close>

text \<open>
  A stub of the zip reader: an archive whose bytes start with \<open>D\<close> extracts to one
  directory with one file, an empty archive is corrupt, any other archive extracts to a
  single file at top level. What it extracts has the time of the extraction.
\<close>

definition stub_extractall :: "string \<Rightarrow> string \<Rightarrow> nat \<Rightarrow> filesystem \<Rightarrow> exn + filesystem" where
  "stub_extractall zip_path dest t d =
     (case map_of d zip_path of
        Some (File b, t') \<Rightarrow>
          (if b = [] then Inl BadZipFile
           else if hd b = CHR ''D'' then
             Inr (AList.update (dest @ ''/ds/scan.nii'') (File (tl b), t)
                   (AList.update (dest @ ''/ds'') (Dir, t) d))
           else Inr (AList.update (dest @ ''/readme.txt'') (File b, t) d))
      | _ \<Rightarrow> Inl FileNotFoundError)"

text \<open>
  A stub of the tool: it exits with the given code and error text, and on exit 0 it
  writes one report that holds the participant label it was given. The report has the
  time of the run.
\<close>

definition stub_tool ::
  "int \<Rightarrow> string \<Rightarrow> string list \<Rightarrow> nat \<Rightarrow> filesystem \<Rightarrow> exn + (completed_process \<times> filesystem)" where
  "stub_tool code err cmd t d =
     Inr (\<lparr>returncode = code, stdout = [], stderr = err\<rparr>,
          if code = 0
          then AList.update (OUTPUT_FOLDER @ ''/report.html'')
                 (File (concat (take 1 (drop 12 cmd))), t) d
          else d)"

definition stub_env :: "int \<Rightarrow> string \<Rightarrow> env" where
  "stub_env code err =
     \<lparr>cwd = ''/srv'', extractall = stub_extractall, subprocess_run = stub_tool code err\<rparr>"

text \<open>
  A world in which an earlier request has left files in both workspaces; the time is 5.
\<close>

definition used_world :: world where
  "used_world =
     \<lparr>disk = [(''/tmp'', Dir, 0),
              (''/tmp/mriqc_upload'', Dir, 1), (''/tmp/mriqc_upload/old'', Dir, 2),
              (''/tmp/mriqc_output'', Dir, 1), (''/tmp/mriqc_output/old.html'', File ''x'', 3)],
      calls = [], now = 5\<rparr>"

text \<open>A request that uploads the archive \<open>b\<close> under the file name \<open>n\<close>.\<close>

definition upload :: "string \<Rightarrow> bytes \<Rightarrow> (string \<times> string) list \<Rightarrow> request" where
  "upload n b kv = \<lparr>files = [(''bids_zip'', \<lparr>filename = n, stream = b\<rparr>)], form = kv\<rparr>"

subsection \<open>Names for the proofs\<close>

text \<open>The calls that run the external tool.\<close>

definition is_run :: "call \<Rightarrow> bool" where
  "is_run c = (case c of Run cmd \<Rightarrow> True | _ \<Rightarrow> False)"

text \<open>The calls of steps 2 to 4.\<close>

definition prepared_calls :: "call list" where
  "prepared_calls =
     [Rmtree UPLOAD_FOLDER, Rmtree OUTPUT_FOLDER, Makedirs UPLOAD_FOLDER, Makedirs OUTPUT_FOLDER,
      Save (path_join UPLOAD_FOLDER ''bids_data.zip''),
      Extractall (path_join UPLOAD_FOLDER ''bids_data.zip'') UPLOAD_FOLDER]"

text \<open>
  What the stubs leave of \<open>used_world\<close> after steps 2 to 4 of a request that uploads
  \<open>b\<close>, the calls of these steps with the paths written out, and the argument vector
  for the stub's one directory.
\<close>

definition extracted_disk :: "bytes \<Rightarrow> filesystem \<Rightarrow> filesystem" where
  "extracted_disk b xs =
     [(''/tmp'', Dir, 0), (''/tmp/mriqc_upload'', Dir, 5), (''/tmp/mriqc_output'', Dir, 5),
      (''/tmp/mriqc_upload/bids_data.zip'', File b, 5)] @ xs"

definition extracted_calls :: "call list" where
  "extracted_calls =
     [Rmtree ''/tmp/mriqc_upload'', Rmtree ''/tmp/mriqc_output'',
      Makedirs ''/tmp/mriqc_upload'', Makedirs ''/tmp/mriqc_output'',
      Save ''/tmp/mriqc_upload/bids_data.zip'',
      Extractall ''/tmp/mriqc_upload/bids_data.zip'' ''/tmp/mriqc_upload'']"

definition docker_cmd :: "string \<Rightarrow> string list" where
  "docker_cmd label =
     [''docker'', ''run'', ''--rm'', ''-v'', ''/tmp/mriqc_upload/ds:/data:ro'',
      ''-v'', ''/tmp/mriqc_output:/out'', ''nipreps/mriqc:22.0.6'', ''/data'', ''/out'',
      ''participant'', ''--participant_label'', label, ''-m'', ''T1w'', ''T2w'', ''bold'']"

text \<open>The members of the archive of the output workspace.\<close>

definition output_members :: "filesystem \<Rightarrow> filesystem" where
  "output_members d = (if is_dir d OUTPUT_FOLDER then listing OUTPUT_FOLDER d else [])"

text \<open>
  The module body, run once at import (lines 28 and 29): both workspaces are created
  if they are missing.
\<close>

definition module_init :: "world \<Rightarrow> (exn + unit) \<times> world" where
  "module_init w =
     (case makedirs UPLOAD_FOLDER w of
        (Inl e, w') \<Rightarrow> (Inl e, w')
      | (Inr u, w') \<Rightarrow> makedirs OUTPUT_FOLDER w')"

text \<open>A world in which the output workspace is missing.\<close>

definition half_world :: world where
  "half_world =
     \<lparr>disk = [(''/tmp'', Dir, 0), (''/tmp/mriqc_upload'', Dir, 1),
              (''/tmp/mriqc_upload/old'', Dir, 2)],
      calls = [], now = 5\<rparr>"


section \<open>Lemmas\<close>

subsection \<open>Reading an archive back\<close>

lemma get_put_nat: "get_nat (put_nat n @ r) = Some (n, r)"
  by (induction n) simp_all

lemma get_put_str: "get_str (put_str s @ r) = Some (s, r)"
  by (simp add: get_str_def put_str_def get_put_nat)

lemma get_put_member: "get_member (put_member m @ r) = Some (m, r)"
proof -
  obtain name e t where m: "m = (name, e, t)" by (cases m)
  show ?thesis
  proof (cases e)
    case (File c)
    have "get_str (put_str name @ put_nat t @ put_str c @ r) = Some (name, put_nat t @ put_str c @ r)"
      by (rule get_put_str)
    moreover have "get_nat (put_nat t @ put_str c @ r) = Some (t, put_str c @ r)"
      by (rule get_put_nat)
    moreover have "get_str (put_str c @ r) = Some (c, r)"
      by (rule get_put_str)
    ultimately show ?thesis
      by (simp add: get_member_def m File)
  next
    case Dir
    have "get_str (put_str name @ put_nat t @ r) = Some (name, put_nat t @ r)"
      by (rule get_put_str)
    moreover have "get_nat (put_nat t @ r) = Some (t, r)"
      by (rule get_put_nat)
    ultimately show ?thesis
      by (simp add: get_member_def m Dir)
  qed
qed

lemma get_put_members:
  "get_members (length l) (concat (map put_member l) @ r) = Some (l, r)"
proof (induction l)
  case Nil
  show ?case by simp
next
  case (Cons m l)
  have "get_member (put_member m @ concat (map put_member l) @ r) =
          Some (m, concat (map put_member l) @ r)"
    by (rule get_put_member)
  then have "get_members (Suc (length l)) (put_member m @ concat (map put_member l) @ r) =
               Some (m # l, r)"
    by (simp only: get_members.simps Cons.IH option.case prod.case)
  then show ?case by (simp only: list.map concat.simps append_assoc length_Cons)
qed

text \<open>The reader inverts the writer on every list of members.\<close>

lemma zip_round_trip: "zip_decode (zip_encode l) = Some l"
proof -
  have "get_nat (put_nat (length l) @ concat (map put_member l)) =
          Some (length l, concat (map put_member l))"
    by (rule get_put_nat)
  moreover have "get_members (length l) (concat (map put_member l)) = Some (l, [])"
    using get_put_members [of l "[]"] by (simp only: append_Nil2)
  ultimately show ?thesis
    by (simp only: zip_decode_def zip_encode_def option.case prod.case list.case)
qed

text \<open>So two archives are the same bytes only if they hold the same members.\<close>

lemma zip_encode_inj: "zip_encode l = zip_encode l' \<Longrightarrow> l = l'"
  by (metis zip_round_trip option.inject)

lemma map_of_filter_key:
  "map_of (filter (\<lambda>(q, e). P q) d) k = (if P k then map_of d k else None)"
  by (induction d) auto

subsection \<open>What each step logs\<close>



lemma calls_save: "save f p w = (r, w') \<Longrightarrow> calls w' = calls w @ [Save p]"
  by (auto simp: save_def Let_def split: sum.splits)

lemma calls_unzip: "unzip E z p w = (r, w') \<Longrightarrow> calls w' = calls w @ [Extractall z p]"
  by (auto simp: unzip_def Let_def split: sum.splits)

lemma calls_run: "run E cmd w = (r, w') \<Longrightarrow> calls w' = calls w @ [Run cmd]"
  by (auto simp: run_def Let_def split: sum.splits)

lemma calls_make_archive:
  "make_archive b f p w = (r, w') \<Longrightarrow> calls w' = calls w @ [MakeArchive b f p]"
  by (auto simp: make_archive_def Let_def split: sum.splits if_splits)

lemma calls_send_file: "send_file p w = (r, w') \<Longrightarrow> calls w' = calls w @ [SendFile p]"
  by (auto simp: send_file_def Let_def split: option.splits entry.splits prod.splits)

lemma calls_find_bids_root: "find_bids_root w = (r, w') \<Longrightarrow> w' = w"
  by (auto simp: find_bids_root_def split: sum.splits)


lemma calls_save_and_unzip:
  assumes "save_and_unzip E f w = (r, w')"
  shows "\<exists>cs. calls w' = calls w @ cs \<and> (\<forall>c \<in> set cs. \<not> is_run c)"
proof (cases "save f (path_join UPLOAD_FOLDER ''bids_data.zip'') w")
  case (Pair r1 w1)
  then have c1: "calls w1 = calls w @ [Save (path_join UPLOAD_FOLDER ''bids_data.zip'')]"
    by (rule calls_save)
  show ?thesis
  proof (cases r1)
    case (Inl e)
    with Pair assms have "w' = w1" by (simp add: save_and_unzip_def)
    with c1 show ?thesis by (simp add: is_run_def)
  next
    case (Inr u)
    with Pair assms have "unzip E (path_join UPLOAD_FOLDER ''bids_data.zip'') UPLOAD_FOLDER w1 = (r, w')"
      by (simp add: save_and_unzip_def)
    then have "calls w' = calls w1 @ [Extractall (path_join UPLOAD_FOLDER ''bids_data.zip'') UPLOAD_FOLDER]"
      by (rule calls_unzip)
    with c1 show ?thesis by (simp add: is_run_def)
  qed
qed


lemma calls_run_and_pack:
  assumes "run_and_pack E root subj w = (out, w')"
  shows "\<exists>cs. calls w' = calls w @ Run (mriqc_cmd E root subj) # cs \<and> (\<forall>c \<in> set cs. \<not> is_run c)"
proof (cases "run E (mriqc_cmd E root subj) w")
  case (Pair r1 w1)
  then have c1: "calls w1 = calls w @ [Run (mriqc_cmd E root subj)]" by (rule calls_run)
  show ?thesis
  proof (cases r1)
    case (Inl e)
    with Pair assms have "w' = w1" by (simp add: run_and_pack_def and_then_def)
    with c1 show ?thesis by simp
  next
    case (Inr res)
    show ?thesis
    proof (cases "returncode res \<noteq> 0")
      case True
      with Inr Pair assms have "w' = w1" by (simp add: run_and_pack_def and_then_def)
      with c1 show ?thesis by simp
    next
      case False
      show ?thesis
      proof (cases "make_archive (str_replace ''.zip'' [] ''/tmp/mriqc_results.zip'') ''zip'' OUTPUT_FOLDER w1")
        case (Pair r2 w2)
        note mk = this
        then have c2: "calls w2 = calls w1 @ [MakeArchive (str_replace ''.zip'' [] ''/tmp/mriqc_results.zip'') ''zip'' OUTPUT_FOLDER]"
          by (rule calls_make_archive)
        show ?thesis
        proof (cases r2)
          case (Inl e)
          with mk False Inr \<open>run E (mriqc_cmd E root subj) w = (r1, w1)\<close> assms
          have "w' = w2" by (simp add: run_and_pack_def and_then_def)
          with c1 c2 show ?thesis by (simp add: is_run_def)
        next
          case (Inr a)
          obtain r3 w3 where sf: "send_file ''/tmp/mriqc_results.zip'' w2 = (r3, w3)"
            by (cases "send_file ''/tmp/mriqc_results.zip'' w2")
          then have c3: "calls w3 = calls w2 @ [SendFile ''/tmp/mriqc_results.zip'']"
            by (rule calls_send_file)
          from sf Inr mk False \<open>r1 = Inr res\<close> \<open>run E (mriqc_cmd E root subj) w = (r1, w1)\<close> assms
          have "w' = w3" by (cases r3) (simp_all add: run_and_pack_def and_then_def)
          with c1 c2 c3 show ?thesis by (simp add: is_run_def)
        qed
      qed
    qed
  qed
qed

subsection \<open>The input root and the branches of the handler\<close>



lemma first_dir_None: "first_dir d items = None \<longleftrightarrow> (\<forall>item \<in> set items. \<not> is_dir d item)"
  by (induction items) auto

lemma iterdir_children: "iterdir p d = Inr items \<Longrightarrow> \<forall>q \<in> set items. child_of p q"
  by (auto simp: iterdir_def split: if_splits)



lemma handler_with_payload:
  assumes "files_get req ''bids_zip'' = Some f" and "filename f \<noteq> []"
  shows "run_mriqc E req w =
     and_then (prepare E f w) (\<lambda>u w.
     and_then (find_bids_root w) (\<lambda>bids_root w.
       case bids_root of
         None \<Rightarrow>
           (Response (jsonify [(''error'', ''No BIDS directory found after unzipping.'')] 400), w)
       | Some root \<Rightarrow> run_and_pack E root (form_get req ''participant_label'' ''01'') w))"
  using assms by (simp add: run_mriqc_def)

lemma handler_prepared:
  assumes "files_get req ''bids_zip'' = Some f" and "filename f \<noteq> []"
    and "prepare E f w = (Inr (), w4)"
    and "iterdir UPLOAD_FOLDER (disk w4) = Inr items"
  shows "run_mriqc E req w =
     (case first_dir (disk w4) items of
        None \<Rightarrow>
          (Response (jsonify [(''error'', ''No BIDS directory found after unzipping.'')] 400), w4)
      | Some root \<Rightarrow> run_and_pack E root (form_get req ''participant_label'' ''01'') w4)"
  using assms by (simp add: handler_with_payload and_then_def find_bids_root_def)

lemma run_and_pack_nonzero:
  assumes "subprocess_run E (mriqc_cmd E root subj) (now w) (disk w) = Inr (r, d)"
    and "returncode r \<noteq> 0"
  shows "run_and_pack E root subj w =
     (Response \<lparr>body = Json [(''error'', ''MRIQC failed''), (''stderr'', stderr r)], status = 500\<rparr>,
      w\<lparr>calls := calls w @ [Run (mriqc_cmd E root subj)], disk := d\<rparr>)"
  using assms by (simp add: run_and_pack_def and_then_def run_def jsonify_def)

lemma result_base: "str_replace ''.zip'' [] ''/tmp/mriqc_results.zip'' = ''/tmp/mriqc_results''"
  by (simp add: str_replace_def)

lemma result_name: "basename ''/tmp/mriqc_results.zip'' = ''mriqc_results.zip''"
  by (simp add: basename_def)

lemma run_and_pack_zero:
  assumes "subprocess_run E (mriqc_cmd E root subj) (now w) (disk w) = Inr (r, d)"
    and "returncode r = 0"
    and "\<not> is_dir d ''/tmp/mriqc_results.zip''"
  shows "run_and_pack E root subj w =
     (Response \<lparr>body = Attachment ''mriqc_results.zip'' (zip_encode (output_members d)),
                status = 200\<rparr>,
      w\<lparr>disk := AList.update ''/tmp/mriqc_results.zip''
                  (File (zip_encode (output_members d)), now w) d,
        calls := calls w @ [Run (mriqc_cmd E root subj),
                            MakeArchive ''/tmp/mriqc_results'' ''zip'' OUTPUT_FOLDER,
                            SendFile ''/tmp/mriqc_results.zip'']\<rparr>)"
  using assms
  by (simp add: run_and_pack_def and_then_def run_def make_archive_def write_file_def
      send_file_def result_base result_name update_conv' Let_def output_members_def)

lemma run_and_pack_200:
  assumes "run_and_pack E root subj w = (Response resp, w')" and "status resp = 200"
  shows "\<exists>r d. subprocess_run E (mriqc_cmd E root subj) (now w) (disk w) = Inr (r, d)
           \<and> returncode r = 0 \<and> \<not> is_dir d ''/tmp/mriqc_results.zip''"
  using assms
  by (auto simp: run_and_pack_def and_then_def run_def make_archive_def write_file_def
      send_file_def result_base jsonify_def Let_def
      split: sum.splits if_splits option.splits entry.splits prod.splits)


subsection \<open>The fixed paths\<close>

lemma workspaces_apart: "at_or_below UPLOAD_FOLDER q \<Longrightarrow> \<not> at_or_below OUTPUT_FOLDER q"
  unfolding at_or_below_def below_def UPLOAD_FOLDER_def OUTPUT_FOLDER_def
  by (auto dest: prefix_same_cases)

lemma upload_not_in_output [simp]: "\<not> at_or_below OUTPUT_FOLDER UPLOAD_FOLDER"
  using workspaces_apart [of UPLOAD_FOLDER] by (simp add: at_or_below_def)

lemma output_not_in_upload [simp]: "\<not> at_or_below UPLOAD_FOLDER OUTPUT_FOLDER"
  using workspaces_apart [of OUTPUT_FOLDER] by (auto simp: at_or_below_def)

lemma workspaces_differ [simp]: "UPLOAD_FOLDER \<noteq> OUTPUT_FOLDER" "OUTPUT_FOLDER \<noteq> UPLOAD_FOLDER"
  by (simp_all add: UPLOAD_FOLDER_def OUTPUT_FOLDER_def)

lemma zip_in_upload [simp]: "below UPLOAD_FOLDER (path_join UPLOAD_FOLDER ''bids_data.zip'')"
  by (simp add: below_def path_join_def)

lemma zip_not_workspace [simp]:
  "path_join UPLOAD_FOLDER ''bids_data.zip'' \<noteq> UPLOAD_FOLDER"
  "path_join UPLOAD_FOLDER ''bids_data.zip'' \<noteq> OUTPUT_FOLDER"
  "\<not> at_or_below OUTPUT_FOLDER (path_join UPLOAD_FOLDER ''bids_data.zip'')"
    apply (simp add: path_join_def)
   apply (simp add: path_join_def UPLOAD_FOLDER_def OUTPUT_FOLDER_def)
  using workspaces_apart [of "path_join UPLOAD_FOLDER ''bids_data.zip''"]
  by (simp add: at_or_below_def)

lemma result_outside [simp]:
  "\<not> at_or_below UPLOAD_FOLDER ''/tmp/mriqc_results.zip''"
  "\<not> at_or_below OUTPUT_FOLDER ''/tmp/mriqc_results.zip''"
  by (simp_all add: at_or_below_def below_def UPLOAD_FOLDER_def OUTPUT_FOLDER_def)

lemma is_file_filter:
  "is_file (filter (\<lambda>(q, e). P q) d) k = (P k \<and> is_file d k)"
  by (simp add: is_file_def map_of_filter_key)

lemma update_fresh: "map_of d k = None \<Longrightarrow> AList.update k v d = d @ [(k, v)]"
  by (induction d) (auto split: if_splits)

lemma map_of_outside:
  "map_of (filter (\<lambda>(q, e). \<not> at_or_below OUTPUT_FOLDER q \<and> \<not> at_or_below UPLOAD_FOLDER q) d) k =
     (if at_or_below OUTPUT_FOLDER k \<or> at_or_below UPLOAD_FOLDER k then None else map_of d k)"
  using map_of_filter_key [of "\<lambda>q. \<not> at_or_below OUTPUT_FOLDER q \<and> \<not> at_or_below UPLOAD_FOLDER q" d k]
  by auto

lemma zip_at_or_below [simp]: "at_or_below UPLOAD_FOLDER (path_join UPLOAD_FOLDER ''bids_data.zip'')"
  by (simp add: at_or_below_def)

lemma remove_both:
  "filter (\<lambda>(q, e). \<not> at_or_below OUTPUT_FOLDER q) (filter (\<lambda>(q, e). \<not> at_or_below UPLOAD_FOLDER q) d) =
   filter (\<lambda>(q, e). \<not> at_or_below OUTPUT_FOLDER q \<and> \<not> at_or_below UPLOAD_FOLDER q) d"
  by (induction d) auto

subsection \<open>Steps 2 to 4\<close>

text \<open>Step 2 on a world whose workspace paths are not regular files.\<close>

lemma clean_up_ok:
  assumes "\<not> is_file (disk w) UPLOAD_FOLDER" and "\<not> is_file (disk w) OUTPUT_FOLDER"
  shows "clean_up w =
     (Inr (),
      w\<lparr>disk := filter (\<lambda>(q, e). \<not> at_or_below OUTPUT_FOLDER q \<and> \<not> at_or_below UPLOAD_FOLDER q) (disk w)
                @ [(UPLOAD_FOLDER, Dir, now w), (OUTPUT_FOLDER, Dir, now w)],
        calls := calls w @ [Rmtree UPLOAD_FOLDER, Rmtree OUTPUT_FOLDER,
                            Makedirs UPLOAD_FOLDER, Makedirs OUTPUT_FOLDER]\<rparr>)"
proof -
  let ?d = "filter (\<lambda>(q, e). \<not> at_or_below OUTPUT_FOLDER q \<and> \<not> at_or_below UPLOAD_FOLDER q) (disk w)"
  let ?w1 = "w\<lparr>disk := ?d, calls := calls w @ [Rmtree UPLOAD_FOLDER, Rmtree OUTPUT_FOLDER]\<rparr>"
  have r: "rmtree OUTPUT_FOLDER (rmtree UPLOAD_FOLDER w) = ?w1"
    using assms by (simp add: rmtree_def is_file_filter remove_both del: filter_filter)
  have n: "map_of ?d UPLOAD_FOLDER = None" "map_of ?d OUTPUT_FOLDER = None"
    by (simp_all add: map_of_outside) (simp_all add: at_or_below_def)
  have m: "makedirs UPLOAD_FOLDER ?w1 =
             (Inr (), w\<lparr>disk := ?d @ [(UPLOAD_FOLDER, Dir, now w)],
                        calls := calls w @ [Rmtree UPLOAD_FOLDER, Rmtree OUTPUT_FOLDER,
                                            Makedirs UPLOAD_FOLDER]\<rparr>)"
    using n by (simp add: makedirs_def)
  show ?thesis
    using n by (simp add: clean_up_def r m makedirs_def Let_def map_add_def)
qed

lemma makedirs_on_file:
  "is_file (disk w) p \<Longrightarrow> makedirs p w = (Inl FileExistsError, w\<lparr>calls := calls w @ [Makedirs p]\<rparr>)"
  by (auto simp: makedirs_def is_file_def Let_def split: option.splits entry.splits prod.splits)

lemma makedirs_elsewhere:
  "makedirs p w = (r, w') \<Longrightarrow> q \<noteq> p \<Longrightarrow> map_of (disk w') q = map_of (disk w) q"
  by (auto simp: makedirs_def Let_def map_add_def split: option.splits entry.splits prod.splits)

lemma clean_up_ok_only:
  assumes "clean_up w = (Inr u, w2)"
  shows "\<not> is_file (disk w) UPLOAD_FOLDER \<and> \<not> is_file (disk w) OUTPUT_FOLDER"
proof (rule ccontr)
  let ?w = "rmtree OUTPUT_FOLDER (rmtree UPLOAD_FOLDER w)"
  assume "\<not> ?thesis"
  then consider "is_file (disk w) UPLOAD_FOLDER"
    | "\<not> is_file (disk w) UPLOAD_FOLDER" "is_file (disk w) OUTPUT_FOLDER" by blast
  then show False
  proof cases
    case 1
    then have "is_file (disk ?w) UPLOAD_FOLDER"
      by (simp add: rmtree_def is_file_filter)
    from makedirs_on_file [OF this] assms show False by (simp add: clean_up_def)
  next
    case 2
    then have f: "is_file (disk ?w) OUTPUT_FOLDER"
      by (simp add: rmtree_def is_file_filter)
    obtain r1 w1 where m: "makedirs UPLOAD_FOLDER ?w = (r1, w1)"
      by (cases "makedirs UPLOAD_FOLDER ?w")
    from makedirs_elsewhere [OF m, of OUTPUT_FOLDER] f
    have "is_file (disk w1) OUTPUT_FOLDER" by (simp add: is_file_def)
    from makedirs_on_file [OF this] assms m show False by (cases r1) (auto simp: clean_up_def)
  qed
qed

text \<open>Steps 2 to 4 on such a world.\<close>

lemma save_on_clean:
  assumes "disk w2 =
      filter (\<lambda>(q, e). \<not> at_or_below OUTPUT_FOLDER q \<and> \<not> at_or_below UPLOAD_FOLDER q) d
        @ [(UPLOAD_FOLDER, Dir, now w2), (OUTPUT_FOLDER, Dir, now w2)]"
  shows "save f (path_join UPLOAD_FOLDER ''bids_data.zip'') w2 =
   (Inr (), w2\<lparr>disk := staged f (now w2) d,
               calls := calls w2 @ [Save (path_join UPLOAD_FOLDER ''bids_data.zip'')]\<rparr>)"
proof -
  let ?c = "filter (\<lambda>(q, e). \<not> at_or_below OUTPUT_FOLDER q \<and> \<not> at_or_below UPLOAD_FOLDER q) d
              @ [(UPLOAD_FOLDER, Dir, now w2), (OUTPUT_FOLDER, Dir, now w2)]"
  let ?z = "path_join UPLOAD_FOLDER ''bids_data.zip''"
  have n: "map_of ?c ?z = None"
    by (simp add: map_of_outside map_add_def)
  then have nd: "\<not> is_dir ?c ?z"
    by (simp only: is_dir_def) simp
  have u: "AList.update ?z (File (stream f), now w2) ?c = staged f (now w2) d"
    using update_fresh [OF n] by (simp add: staged_def)
  show ?thesis
    unfolding save_def write_file_def assms
    by (simp add: nd u del: map_of_append)
qed

lemma prepare_eq:
  assumes "\<not> is_file (disk w) UPLOAD_FOLDER" and "\<not> is_file (disk w) OUTPUT_FOLDER"
  shows "prepare E f w =
     (case extractall E (path_join UPLOAD_FOLDER ''bids_data.zip'') UPLOAD_FOLDER (now w)
             (staged f (now w) (disk w)) of
        Inl e \<Rightarrow> (Inl e, w\<lparr>disk := staged f (now w) (disk w), calls := calls w @ prepared_calls\<rparr>)
      | Inr d \<Rightarrow> (Inr (), w\<lparr>disk := d, calls := calls w @ prepared_calls\<rparr>))"
proof -
  let ?w2 = "w\<lparr>disk := filter (\<lambda>(q, e). \<not> at_or_below OUTPUT_FOLDER q \<and> \<not> at_or_below UPLOAD_FOLDER q) (disk w)
                @ [(UPLOAD_FOLDER, Dir, now w), (OUTPUT_FOLDER, Dir, now w)],
        calls := calls w @ [Rmtree UPLOAD_FOLDER, Rmtree OUTPUT_FOLDER,
                            Makedirs UPLOAD_FOLDER, Makedirs OUTPUT_FOLDER]\<rparr>"
  have c: "clean_up w = (Inr (), ?w2)" by (rule clean_up_ok [OF assms])
  have s: "save f (path_join UPLOAD_FOLDER ''bids_data.zip'') ?w2 =
     (Inr (), ?w2\<lparr>disk := staged f (now ?w2) (disk w),
               calls := calls ?w2 @ [Save (path_join UPLOAD_FOLDER ''bids_data.zip'')]\<rparr>)"
    by (rule save_on_clean) simp
  show ?thesis
    by (simp add: prepare_def c save_and_unzip_def s unzip_def prepared_calls_def Let_def
        split: sum.splits)
qed

lemma prepare_ok_only:
  assumes "prepare E f w = (Inr u, w4)"
  shows "\<not> is_file (disk w) UPLOAD_FOLDER \<and> \<not> is_file (disk w) OUTPUT_FOLDER"
proof -
  obtain r1 w1 where c: "clean_up w = (r1, w1)" by (cases "clean_up w")
  with assms obtain u' where "r1 = Inr u'" by (cases r1) (auto simp: prepare_def)
  with c show ?thesis using clean_up_ok_only by blast
qed

lemma prepare_ok:
  assumes "prepare E f w = (Inr u, w4)"
  shows "extractall E (path_join UPLOAD_FOLDER ''bids_data.zip'') UPLOAD_FOLDER (now w)
           (staged f (now w) (disk w)) = Inr (disk w4)
         \<and> calls w4 = calls w @ prepared_calls \<and> now w4 = now w"
proof -
  from prepare_ok_only [OF assms]
  have a: "\<not> is_file (disk w) UPLOAD_FOLDER" "\<not> is_file (disk w) OUTPUT_FOLDER" by simp_all
  show ?thesis
    using assms unfolding prepare_eq [OF a] by (auto split: sum.splits)
qed

subsection \<open>The module body\<close>

lemma makedirs_ok: "makedirs p w = (Inr u, w') \<Longrightarrow> is_dir (disk w') p"
  by (auto simp: makedirs_def Let_def is_dir_def map_add_def
      split: option.splits entry.splits prod.splits)

lemma module_init_ok:
  assumes "module_init w = (Inr u, w')"
  shows "is_dir (disk w') UPLOAD_FOLDER \<and> is_dir (disk w') OUTPUT_FOLDER"
proof -
  obtain r1 w1 where m: "makedirs UPLOAD_FOLDER w = (r1, w1)" by (cases "makedirs UPLOAD_FOLDER w")
  with assms obtain u1 where r1: "r1 = Inr u1" by (cases r1) (auto simp: module_init_def)
  with m assms have m2: "makedirs OUTPUT_FOLDER w1 = (Inr u, w')" by (simp add: module_init_def)
  from makedirs_ok m r1 have "is_dir (disk w1) UPLOAD_FOLDER" by blast
  with makedirs_elsewhere [OF m2, of UPLOAD_FOLDER] have "is_dir (disk w') UPLOAD_FOLDER"
    by (simp add: is_dir_def)
  with makedirs_ok [OF m2] show ?thesis by simp
qed

lemma dir_not_file: "is_dir d p \<Longrightarrow> \<not> is_file d p"
  by (auto simp: is_dir_def is_file_def split: option.splits entry.splits prod.splits)

text \<open>After a successful import neither workspace path is a regular file.\<close>

lemma module_init_no_file:
  assumes "module_init w = (Inr u, w')"
  shows "\<not> is_file (disk w') UPLOAD_FOLDER \<and> \<not> is_file (disk w') OUTPUT_FOLDER"
  using module_init_ok [OF assms] dir_not_file by blast

subsection \<open>What a view determines\<close>

lemma map_of_view: "at_or_below p k \<Longrightarrow> map_of (view p d) k = map_of d k"
  by (simp add: view_def map_of_filter_key)

lemma map_of_rest: "\<not> below p k \<Longrightarrow> map_of (rest p d) k = map_of d k"
  using map_of_filter_key [of "\<lambda>q. \<not> below p q" d k] by (simp add: rest_def)

lemma view_rest:
  "(\<And>q. at_or_below p q \<Longrightarrow> \<not> below p' q) \<Longrightarrow> view p (rest p' d) = view p d"
  by (induction d) (auto simp: view_def rest_def)

lemma view_output_rest_upload: "view OUTPUT_FOLDER (rest UPLOAD_FOLDER d) = view OUTPUT_FOLDER d"
  using workspaces_apart by (intro view_rest) (auto simp: at_or_below_def)

lemma view_upload_rest_output: "view UPLOAD_FOLDER (rest OUTPUT_FOLDER d) = view UPLOAD_FOLDER d"
  using workspaces_apart by (intro view_rest) (auto simp: at_or_below_def)

lemma listing_view: "listing p (view p d) = listing p d"
  by (induction d) (auto simp: listing_def view_def at_or_below_def)

lemma children_view:
  "filter (child_of p) (map fst (view p d)) = filter (child_of p) (map fst d)"
  by (induction d) (auto simp: view_def at_or_below_def child_of_def)

lemma is_dir_view: "at_or_below p k \<Longrightarrow> is_dir (view p d) k = is_dir d k"
  by (simp add: is_dir_def map_of_view)

lemma is_file_view: "at_or_below p k \<Longrightarrow> is_file (view p d) k = is_file d k"
  by (simp add: is_file_def map_of_view)

lemma iterdir_view: "iterdir p (view p d) = iterdir p d"
  by (simp add: iterdir_def is_dir_view is_file_view children_view at_or_below_def)

lemma first_dir_view:
  "\<forall>q \<in> set items. at_or_below p q \<Longrightarrow> first_dir (view p d) items = first_dir d items"
  by (induction items) (auto simp: is_dir_view)

lemma view_outside:
  "view UPLOAD_FOLDER (filter (\<lambda>(q, e). \<not> at_or_below OUTPUT_FOLDER q \<and> \<not> at_or_below UPLOAD_FOLDER q) d) = []"
  "view OUTPUT_FOLDER (filter (\<lambda>(q, e). \<not> at_or_below OUTPUT_FOLDER q \<and> \<not> at_or_below UPLOAD_FOLDER q) d) = []"
  by (induction d) (auto simp: view_def)

lemma view_staged:
  "view UPLOAD_FOLDER (staged f t d) =
     [(UPLOAD_FOLDER, Dir, t), (path_join UPLOAD_FOLDER ''bids_data.zip'', File (stream f), t)]"
  "view OUTPUT_FOLDER (staged f t d) = [(OUTPUT_FOLDER, Dir, t)]"
  using view_outside [of d] by (simp_all add: staged_def view_def) (simp_all add: at_or_below_def)

lemma map_of_staged:
  assumes "\<not> at_or_below OUTPUT_FOLDER k" and "\<not> at_or_below UPLOAD_FOLDER k"
  shows "map_of (staged f t d) k = map_of d k"
proof -
  from assms have n: "k \<noteq> OUTPUT_FOLDER" "k \<noteq> UPLOAD_FOLDER"
    by (auto simp: at_or_below_def)
  from assms(2) zip_at_or_below have z: "k \<noteq> path_join UPLOAD_FOLDER ''bids_data.zip''"
    by auto
  show ?thesis
    using assms n z by (simp add: staged_def map_of_outside map_add_def split: option.splits)
qed

subsection \<open>The run of the tool in the log\<close>



subsection \<open>The paths through the handler\<close>

lemma calls_after_prepare:
  assumes "files_get req ''bids_zip'' = Some f" and "filename f \<noteq> []"
    and "prepare E f w = (r, w4)" and "run_mriqc E req w = (out, w')"
  shows "\<exists>cs. calls w' = calls w4 @ cs"
proof (cases r)
  case (Inl e)
  with assms have "w' = w4" by (simp add: handler_with_payload and_then_def)
  then show ?thesis by simp
next
  case (Inr u)
  with assms(3) have p: "prepare E f w = (Inr (), w4)" by simp
  show ?thesis
  proof (cases "iterdir UPLOAD_FOLDER (disk w4)")
    case (Inl e)
    with p assms have "w' = w4"
      by (simp add: handler_with_payload and_then_def find_bids_root_def)
    then show ?thesis by simp
  next
    case (Inr items)
    note h = handler_prepared [OF assms(1,2) p Inr]
    show ?thesis
    proof (cases "first_dir (disk w4) items")
      case None
      with h assms(4) have "w' = w4" by simp
      then show ?thesis by simp
    next
      case (Some root)
      with h assms(4)
      have "run_and_pack E root (form_get req ''participant_label'' ''01'') w4 = (out, w')" by simp
      from calls_run_and_pack [OF this] show ?thesis by blast
    qed
  qed
qed

lemma listing_of_view: "view p a = view p b \<Longrightarrow> listing p a = listing p b"
  using listing_view [of p a] listing_view [of p b] by simp

lemma listing_empty_dir: "view p d = [(p, x)] \<Longrightarrow> listing p d = []"
  using listing_view [of p d] by (simp add: listing_def below_def)

lemma view_cleaned:
  "view UPLOAD_FOLDER
     (filter (\<lambda>(q, e). \<not> at_or_below OUTPUT_FOLDER q \<and> \<not> at_or_below UPLOAD_FOLDER q) d
      @ [(UPLOAD_FOLDER, x), (OUTPUT_FOLDER, y)]) = [(UPLOAD_FOLDER, x)]"
  "view OUTPUT_FOLDER
     (filter (\<lambda>(q, e). \<not> at_or_below OUTPUT_FOLDER q \<and> \<not> at_or_below UPLOAD_FOLDER q) d
      @ [(UPLOAD_FOLDER, x), (OUTPUT_FOLDER, y)]) = [(OUTPUT_FOLDER, y)]"
  using view_outside [of d] by (simp_all add: view_def) (simp_all add: at_or_below_def)

lemma not_below: "\<not> at_or_below p q \<Longrightarrow> \<not> below p q"
  by (simp add: at_or_below_def)

lemma not_below_self: "\<not> below p p"
  by (simp add: below_def prefix_def)

lemma iterdir_is_dir: "iterdir p d = Inr items \<Longrightarrow> is_dir d p"
  by (auto simp: iterdir_def split: if_splits)

lemma child_at_or_below: "child_of p q \<Longrightarrow> at_or_below p q"
  by (simp add: child_of_def at_or_below_def)

lemma iterdir_of_view: "view p a = view p b \<Longrightarrow> iterdir p a = iterdir p b"
  using iterdir_view [of p a] iterdir_view [of p b] by simp

lemma first_dir_of_view:
  assumes "view p a = view p b" and "\<forall>q \<in> set items. at_or_below p q"
  shows "first_dir a items = first_dir b items"
  using first_dir_view [OF assms(2), of a] first_dir_view [OF assms(2), of b] assms(1) by simp

lemma is_dir_of_view: "view p a = view p b \<Longrightarrow> at_or_below p k \<Longrightarrow> is_dir a k = is_dir b k"
  using is_dir_view [of p k a] is_dir_view [of p k b] by simp

text \<open>The successful path, forwards and backwards.\<close>

lemma success_intro:
  assumes "files_get req ''bids_zip'' = Some f" and "filename f \<noteq> []"
    and "prepare E f w = (Inr (), w4)"
    and "iterdir UPLOAD_FOLDER (disk w4) = Inr items"
    and "first_dir (disk w4) items = Some root"
    and "subprocess_run E (mriqc_cmd E root (form_get req ''participant_label'' ''01''))
           (now w4) (disk w4) = Inr (r, d)"
    and "returncode r = 0"
    and "\<not> is_dir d ''/tmp/mriqc_results.zip''"
  shows "run_mriqc E req w =
     (Response \<lparr>body = Attachment ''mriqc_results.zip'' (zip_encode (output_members d)),
                status = 200\<rparr>,
      w4\<lparr>disk := AList.update ''/tmp/mriqc_results.zip''
                   (File (zip_encode (output_members d)), now w4) d,
         calls := calls w4 @ [Run (mriqc_cmd E root (form_get req ''participant_label'' ''01'')),
                              MakeArchive ''/tmp/mriqc_results'' ''zip'' OUTPUT_FOLDER,
                              SendFile ''/tmp/mriqc_results.zip'']\<rparr>)"
  using handler_prepared [OF assms(1-4)] assms(5) run_and_pack_zero [OF assms(6-8)]
  by simp

lemma success_only:
  assumes "run_mriqc E req w = (Response resp, w1)" and "status resp = 200"
  shows "\<exists>f w4 items root r d.
           files_get req ''bids_zip'' = Some f \<and> filename f \<noteq> [] \<and>
           prepare E f w = (Inr (), w4) \<and>
           iterdir UPLOAD_FOLDER (disk w4) = Inr items \<and>
           first_dir (disk w4) items = Some root \<and>
           subprocess_run E (mriqc_cmd E root (form_get req ''participant_label'' ''01''))
             (now w4) (disk w4) = Inr (r, d) \<and>
           returncode r = 0 \<and> \<not> is_dir d ''/tmp/mriqc_results.zip''"
proof (cases "files_get req ''bids_zip''")
  case None
  with assms show ?thesis by (auto simp: run_mriqc_def jsonify_def)
next
  case (Some f)
  show ?thesis
  proof (cases "filename f = []")
    case True
    with Some assms show ?thesis by (auto simp: run_mriqc_def jsonify_def)
  next
    case False
    note h = handler_with_payload [OF Some False, of E w]
    obtain r1 w4 where p: "prepare E f w = (r1, w4)" by (cases "prepare E f w")
    show ?thesis
    proof (cases r1)
      case (Inl e)
      with p h assms(1) show ?thesis by (simp add: and_then_def)
    next
      case (Inr u)
      with p have p': "prepare E f w = (Inr (), w4)" by simp
      show ?thesis
      proof (cases "iterdir UPLOAD_FOLDER (disk w4)")
        case (Inl e)
        with p' h assms(1) show ?thesis by (simp add: and_then_def find_bids_root_def)
      next
        case (Inr items)
        note h' = handler_prepared [OF Some False p' Inr]
        show ?thesis
        proof (cases "first_dir (disk w4) items")
          case None
          with h' assms show ?thesis by (auto simp: jsonify_def)
        next
          case (Some root)
          with h' assms(1)
          have "run_and_pack E root (form_get req ''participant_label'' ''01'') w4 = (Response resp, w1)"
            by simp
          from run_and_pack_200 [OF this assms(2)] \<open>files_get req ''bids_zip'' = Some f\<close> False p' Inr Some
          show ?thesis by blast
        qed
      qed
    qed
  qed
qed

subsection \<open>What does not depend on modification times\<close>

lemma map_of_untimed: "map_of (untimed d) k = map_option fst (map_of d k)"
  by (induction d) (auto simp: untimed_def)

lemma is_dir_untimed: "is_dir d k = (map_of (untimed d) k = Some Dir)"
  by (auto simp: is_dir_def map_of_untimed split: option.splits entry.splits prod.splits)

lemma is_file_untimed: "is_file d k = (\<exists>b. map_of (untimed d) k = Some (File b))"
  by (auto simp: is_file_def map_of_untimed split: option.splits entry.splits prod.splits)

lemma keys_untimed: "map fst (untimed d) = map fst d"
  by (induction d) (auto simp: untimed_def)

lemma untimed_view: "untimed (view p d) = view p (untimed d)"
  by (induction d) (auto simp: untimed_def view_def)

lemma untimed_listing: "untimed (listing p d) = listing p (untimed d)"
  by (induction d) (auto simp: untimed_def listing_def)

lemma untimed_append: "untimed (a @ b) = untimed a @ untimed b"
  by (simp add: untimed_def)

lemma is_dir_of_untimed_view:
  assumes "untimed (view p a) = untimed (view p b)" and "at_or_below p k"
  shows "is_dir a k = is_dir b k"
proof -
  have "is_dir a k = is_dir (view p a) k" "is_dir b k = is_dir (view p b) k"
    using assms(2) by (simp_all add: is_dir_view)
  with assms(1) show ?thesis by (simp add: is_dir_untimed)
qed

lemma iterdir_of_untimed_view:
  assumes "untimed (view p a) = untimed (view p b)"
  shows "iterdir p a = iterdir p b"
proof -
  have k: "map fst (view p a) = map fst (view p b)"
    using keys_untimed [of "view p a"] keys_untimed [of "view p b"] assms by simp
  have "iterdir p (view p a) = iterdir p (view p b)"
    unfolding iterdir_def is_dir_untimed is_file_untimed assms k ..
  then show ?thesis by (simp add: iterdir_view)
qed

lemma first_dir_of_untimed_view:
  assumes "untimed (view p a) = untimed (view p b)" and "\<forall>q \<in> set items. at_or_below p q"
  shows "first_dir a items = first_dir b items"
  using assms(2)
  by (induction items) (auto simp: is_dir_of_untimed_view [OF assms(1)])

lemma listing_of_untimed_view:
  assumes "untimed (view p a) = untimed (view p b)"
  shows "untimed (listing p a) = untimed (listing p b)"
proof -
  have "untimed (listing p a) = listing p (view p (untimed a))"
    by (simp add: untimed_listing listing_view)
  also have "\<dots> = listing p (view p (untimed b))"
    using assms by (simp add: untimed_view)
  also have "\<dots> = untimed (listing p b)"
    by (simp add: untimed_listing listing_view)
  finally show ?thesis .
qed

lemma output_members_of_untimed_view:
  assumes "untimed (view OUTPUT_FOLDER a) = untimed (view OUTPUT_FOLDER b)"
  shows "untimed (output_members a) = untimed (output_members b)"
  using is_dir_of_untimed_view [OF assms, of OUTPUT_FOLDER] listing_of_untimed_view [OF assms]
  by (simp add: output_members_def at_or_below_def)

subsection \<open>What the contracts give\<close>

lemma map_of_update_other: "k' \<noteq> k \<Longrightarrow> map_of (AList.update k v d) k' = map_of d k'"
  by (simp add: update_conv')

lemma extract_local_same:
  assumes "extract_is_local E"
    and "untimed (view UPLOAD_FOLDER a) = untimed (view UPLOAD_FOLDER b)"
    and "extractall E (path_join UPLOAD_FOLDER ''bids_data.zip'') UPLOAD_FOLDER t a = Inr a'"
  shows "\<exists>b'. extractall E (path_join UPLOAD_FOLDER ''bids_data.zip'') UPLOAD_FOLDER t' b = Inr b'
              \<and> untimed (view UPLOAD_FOLDER a') = untimed (view UPLOAD_FOLDER b')"
proof -
  from assms(1,2)
  have "rel_sum (\<lambda>e e'. True)
          (\<lambda>x y. untimed (view UPLOAD_FOLDER x) = untimed (view UPLOAD_FOLDER y))
          (extractall E (path_join UPLOAD_FOLDER ''bids_data.zip'') UPLOAD_FOLDER t a)
          (extractall E (path_join UPLOAD_FOLDER ''bids_data.zip'') UPLOAD_FOLDER t' b)"
    unfolding extract_is_local_def by blast
  with assms(3) show ?thesis
    by (cases "extractall E (path_join UPLOAD_FOLDER ''bids_data.zip'') UPLOAD_FOLDER t' b") auto
qed

lemma extract_rest:
  assumes "extract_stays_in_upload E"
    and "extractall E (path_join UPLOAD_FOLDER ''bids_data.zip'') UPLOAD_FOLDER t a = Inr a'"
  shows "rest UPLOAD_FOLDER a' = rest UPLOAD_FOLDER a"
  using assms unfolding extract_stays_in_upload_def by blast

lemma extract_local_stays: "extract_is_local E \<Longrightarrow> extract_stays_in_upload E"
  by (simp add: extract_is_local_def)

lemma tool_local_same:
  assumes "tool_is_local E"
    and "untimed (view UPLOAD_FOLDER a) = untimed (view UPLOAD_FOLDER b)"
    and "untimed (view OUTPUT_FOLDER a) = untimed (view OUTPUT_FOLDER b)"
    and "subprocess_run E cmd t a = Inr (r, a')"
  shows "\<exists>b'. subprocess_run E cmd t' b = Inr (r, b')
              \<and> untimed (view OUTPUT_FOLDER a') = untimed (view OUTPUT_FOLDER b')"
proof -
  from assms(1-3)
  have "rel_sum (\<lambda>e e'. True)
          (\<lambda>x y. fst x = fst y \<and>
                 untimed (view OUTPUT_FOLDER (snd x)) = untimed (view OUTPUT_FOLDER (snd y)))
          (subprocess_run E cmd t a) (subprocess_run E cmd t' b)"
    unfolding tool_is_local_def by blast
  with assms(4) show ?thesis
    by (cases "subprocess_run E cmd t' b") auto
qed

lemma tool_local_rest:
  assumes "tool_is_local E" and "subprocess_run E cmd t a = Inr (r, a')"
  shows "rest OUTPUT_FOLDER a' = rest OUTPUT_FOLDER a"
  using assms unfolding tool_is_local_def by blast

lemma map_of_of_rest: "rest p a = rest p b \<Longrightarrow> \<not> below p k \<Longrightarrow> map_of a k = map_of b k"
  using map_of_rest [of p k a] map_of_rest [of p k b] by simp

lemma view_output_of_rest_upload:
  "rest UPLOAD_FOLDER a = rest UPLOAD_FOLDER b \<Longrightarrow> view OUTPUT_FOLDER a = view OUTPUT_FOLDER b"
  using view_output_rest_upload [of a] view_output_rest_upload [of b] by simp

lemma view_upload_of_rest_output:
  "rest OUTPUT_FOLDER a = rest OUTPUT_FOLDER b \<Longrightarrow> view UPLOAD_FOLDER a = view UPLOAD_FOLDER b"
  using view_upload_rest_output [of a] view_upload_rest_output [of b] by simp

text \<open>
  With an extraction that stays in the upload workspace, the output workspace is still
  the empty directory of step 2 when the tool starts.
\<close>

lemma output_empty_when_tool_starts:
  assumes "extract_stays_in_upload E" and "prepare E f w = (Inr (), w4)"
  shows "view OUTPUT_FOLDER (disk w4) = [(OUTPUT_FOLDER, Dir, now w)]"
    and "is_dir (disk w4) OUTPUT_FOLDER" and "listing OUTPUT_FOLDER (disk w4) = []"
proof -
  from prepare_ok [OF assms(2)]
  have "extractall E (path_join UPLOAD_FOLDER ''bids_data.zip'') UPLOAD_FOLDER (now w)
          (staged f (now w) (disk w)) = Inr (disk w4)" by simp
  from extract_rest [OF assms(1) this]
  have "view OUTPUT_FOLDER (disk w4) = view OUTPUT_FOLDER (staged f (now w) (disk w))"
    by (rule view_output_of_rest_upload)
  then show v: "view OUTPUT_FOLDER (disk w4) = [(OUTPUT_FOLDER, Dir, now w)]"
    by (simp add: view_staged)
  show "is_dir (disk w4) OUTPUT_FOLDER"
    using is_dir_view [of OUTPUT_FOLDER OUTPUT_FOLDER "disk w4"] v
    by (simp add: at_or_below_def) (simp add: is_dir_def)
  show "listing OUTPUT_FOLDER (disk w4) = []"
    by (rule listing_empty_dir [OF v])
qed

subsection \<open>Runs of the stubs\<close>

lemmas eval_defs = run_mriqc_def files_get_def form_get_def and_then_def prepare_def clean_up_def
  rmtree_def makedirs_def is_file_def is_dir_def at_or_below_def below_def child_of_def
  save_and_unzip_def save_def write_file_def unzip_def path_join_def find_bids_root_def iterdir_def
  run_and_pack_def run_def mriqc_cmd_def absolute_def make_archive_def listing_def send_file_def
  jsonify_def str_replace_def basename_def UPLOAD_FOLDER_def OUTPUT_FOLDER_def
  stub_env_def stub_extractall_def stub_tool_def used_world_def upload_def Let_def
  new_calls_def

lemma stub_prepare_dir:
  "prepare (stub_env code err) \<lparr>filename = ''a.zip'', stream = ''Dabc''\<rparr> used_world =
     (Inr (), \<lparr>disk = extracted_disk ''Dabc''
                 [(''/tmp/mriqc_upload/ds'', Dir, 5),
                  (''/tmp/mriqc_upload/ds/scan.nii'', File ''abc'', 5)],
               calls = extracted_calls, now = 5\<rparr>)"
  by (simp add: eval_defs extracted_disk_def extracted_calls_def)

lemma stub_prepare_flat:
  "prepare (stub_env code err) \<lparr>filename = ''a.zip'', stream = ''abc''\<rparr> used_world =
     (Inr (), \<lparr>disk = extracted_disk ''abc'' [(''/tmp/mriqc_upload/readme.txt'', File ''abc'', 5)],
               calls = extracted_calls, now = 5\<rparr>)"
  by (simp add: eval_defs extracted_disk_def extracted_calls_def)

lemma stub_iterdir_dir:
  "iterdir UPLOAD_FOLDER (extracted_disk ''Dabc''
       [(''/tmp/mriqc_upload/ds'', Dir, 5), (''/tmp/mriqc_upload/ds/scan.nii'', File ''abc'', 5)]) =
     Inr [''/tmp/mriqc_upload/bids_data.zip'', ''/tmp/mriqc_upload/ds'']"
  by (simp add: eval_defs extracted_disk_def)

lemma stub_iterdir_flat:
  "iterdir UPLOAD_FOLDER (extracted_disk ''abc'' [(''/tmp/mriqc_upload/readme.txt'', File ''abc'', 5)]) =
     Inr [''/tmp/mriqc_upload/bids_data.zip'', ''/tmp/mriqc_upload/readme.txt'']"
  by (simp add: eval_defs extracted_disk_def)

lemma stub_run_ok:
  "run_mriqc (stub_env 0 []) (upload ''a.zip'' ''Dabc'' kv) used_world =
     (Response \<lparr>body = Attachment ''mriqc_results.zip''
                  (zip_encode [(''report.html'',
                     File (form_get (upload ''a.zip'' ''Dabc'' kv) ''participant_label'' ''01''), 5)]),
                status = 200\<rparr>,
      \<lparr>disk = extracted_disk ''Dabc''
               [(''/tmp/mriqc_upload/ds'', Dir, 5),
                (''/tmp/mriqc_upload/ds/scan.nii'', File ''abc'', 5),
                (''/tmp/mriqc_output/report.html'',
                   File (form_get (upload ''a.zip'' ''Dabc'' kv) ''participant_label'' ''01''), 5),
                (''/tmp/mriqc_results.zip'',
                   File (zip_encode [(''report.html'',
                     File (form_get (upload ''a.zip'' ''Dabc'' kv) ''participant_label'' ''01''), 5)]), 5)],
       calls = extracted_calls @
               [Run (docker_cmd (form_get (upload ''a.zip'' ''Dabc'' kv) ''participant_label'' ''01'')),
                MakeArchive ''/tmp/mriqc_results'' ''zip'' ''/tmp/mriqc_output'',
                SendFile ''/tmp/mriqc_results.zip''],
       now = 5\<rparr>)"
  by (simp add: eval_defs extracted_disk_def extracted_calls_def docker_cmd_def)


lemma first_dir_stub: "first_dir (extracted_disk ''Dabc''
       [(''/tmp/mriqc_upload/ds'', Dir, 5), (''/tmp/mriqc_upload/ds/scan.nii'', File ''abc'', 5)])
       [''/tmp/mriqc_upload/bids_data.zip'', ''/tmp/mriqc_upload/ds''] = Some ''/tmp/mriqc_upload/ds''"
  by (simp add: is_dir_def extracted_disk_def)

text \<open>The stubs keep the contracts.\<close>

lemma view_update:
  "at_or_below p k \<Longrightarrow> view p (AList.update k v d) = AList.update k v (view p d)"
  by (induction d) (auto simp: view_def)

lemma rest_update: "below p k \<Longrightarrow> rest p (AList.update k v d) = rest p d"
  by (induction d) (auto simp: rest_def)

lemma untimed_update: "untimed (AList.update k (e, t) d) = AList.update k e (untimed d)"
  by (induction d) (auto simp: untimed_def)

lemma below_longer: "s \<noteq> [] \<Longrightarrow> below p (p @ CHR ''/'' # s)"
  by (simp add: below_def)

lemma stub_extract_stays: "extract_stays_in_upload (stub_env code err)"
proof -
  have b: "below UPLOAD_FOLDER (UPLOAD_FOLDER @ ''/ds'')"
    "below UPLOAD_FOLDER (UPLOAD_FOLDER @ ''/ds/scan.nii'')"
    "below UPLOAD_FOLDER (UPLOAD_FOLDER @ ''/readme.txt'')"
    by (simp_all add: below_longer)
  show ?thesis
    unfolding extract_stays_in_upload_def
    by (auto simp: stub_env_def stub_extractall_def rest_update b
        split: option.splits entry.splits if_splits prod.splits)
qed

lemma stub_extract_is_local: "extract_is_local (stub_env code err)"
proof -
  let ?zp = "path_join UPLOAD_FOLDER ''bids_data.zip''"
  have a: "at_or_below UPLOAD_FOLDER (UPLOAD_FOLDER @ ''/ds'')"
    "at_or_below UPLOAD_FOLDER (UPLOAD_FOLDER @ ''/ds/scan.nii'')"
    "at_or_below UPLOAD_FOLDER (UPLOAD_FOLDER @ ''/readme.txt'')"
    by (simp_all add: at_or_below_def below_longer)
  have u: "untimed (view UPLOAD_FOLDER (AList.update k (e, t) x)) =
             AList.update k e (untimed (view UPLOAD_FOLDER x))"
    if "at_or_below UPLOAD_FOLDER k" for k e t x
    using that by (simp add: view_update untimed_update)
  have 1: "rel_sum (\<lambda>e e'. True)
             (\<lambda>x y. untimed (view UPLOAD_FOLDER x) = untimed (view UPLOAD_FOLDER y))
             (stub_extractall ?zp UPLOAD_FOLDER t d) (stub_extractall ?zp UPLOAD_FOLDER t' d')"
    if v: "untimed (view UPLOAD_FOLDER d) = untimed (view UPLOAD_FOLDER d')" for t t' d d'
  proof -
    have "map_option fst (map_of d ?zp) = map_option fst (map_of d' ?zp)"
      using map_of_untimed [of "view UPLOAD_FOLDER d" ?zp]
        map_of_untimed [of "view UPLOAD_FOLDER d'" ?zp] v
      by (simp add: map_of_view)
    then show ?thesis
      using v
      by (cases "map_of d ?zp"; cases "map_of d' ?zp")
        (auto simp: stub_extractall_def u a split: entry.splits prod.splits)
  qed
  show ?thesis
    unfolding extract_is_local_def using 1 stub_extract_stays by (simp add: stub_env_def)
qed

lemma stub_tool_is_local: "tool_is_local (stub_env code err)"
proof -
  have b: "below OUTPUT_FOLDER (OUTPUT_FOLDER @ ''/report.html'')"
    by (simp add: below_longer)
  then have a: "at_or_below OUTPUT_FOLDER (OUTPUT_FOLDER @ ''/report.html'')"
    by (simp add: at_or_below_def)
  show ?thesis
    unfolding tool_is_local_def
    by (auto simp: stub_env_def stub_tool_def view_update untimed_update rest_update a b)
qed

section \<open>Properties\<close>

subsection \<open>A request without the archive\<close>

text \<open>
  C2: when the field \<^verbatim>\<open>bids_zip\<close> is absent from the request, the handler answers 400
  with the JSON body \<^verbatim>\<open>{"error": "No BIDS zip provided"}\<close>, and the world it leaves
  is the world it found: the file system is untouched and no call was logged, so there
  was no reset, no extraction and no run of the tool.
\<close>

theorem missing_archive_is_bad_request:
  "files_get req ''bids_zip'' = None \<Longrightarrow>
   run_mriqc E req w =
     (Response \<lparr>body = Json [(''error'', ''No BIDS zip provided'')], status = 400\<rparr>, w)"
  by (simp add: run_mriqc_def jsonify_def)

text \<open>A request with a label and no file, on a world with files of an earlier request.\<close>
theorem missing_archive_is_bad_request_witness:
  "files_get (\<lparr>files = [], form = [(''participant_label'', ''02'')]\<rparr>) ''bids_zip'' = None \<and>
   run_mriqc (stub_env 0 []) \<lparr>files = [], form = [(''participant_label'', ''02'')]\<rparr> used_world =
     (Response \<lparr>body = Json [(''error'', ''No BIDS zip provided'')], status = 400\<rparr>, used_world)"
proof -
  have h: "files_get (\<lparr>files = [], form = [(''participant_label'', ''02'')]\<rparr>) ''bids_zip'' = None"
    by (simp add: files_get_def)
  from h missing_archive_is_bad_request [OF h] show ?thesis by blast
qed

text \<open>
  C10: when the request has a part named \<^verbatim>\<open>bids_zip\<close> that is false as a truth
  value (a file part with an empty file name), the handler answers 400 with the JSON body
  \<^verbatim>\<open>{"error": "No BIDS zip provided"}\<close> and leaves the world as it found it,
  exactly as it does for the same request with the field removed.
\<close>

theorem falsy_archive_is_bad_request:
  assumes "files_get req ''bids_zip'' = Some f" and "filename f = []"
  shows "run_mriqc E req w =
           (Response \<lparr>body = Json [(''error'', ''No BIDS zip provided'')], status = 400\<rparr>, w)
         \<and> run_mriqc E req w =
             run_mriqc E (req\<lparr>files := filter (\<lambda>(k, v). k \<noteq> ''bids_zip'') (files req)\<rparr>) w"
  using assms by (simp add: run_mriqc_def jsonify_def files_get_def form_get_def map_of_filter_key)

theorem falsy_archive_is_bad_request_witness:
  "files_get (upload [] ''Dabc'' []) ''bids_zip'' = Some \<lparr>filename = [], stream = ''Dabc''\<rparr> \<and>
   filename \<lparr>filename = [], stream = ''Dabc''\<rparr> = [] \<and>
   run_mriqc (stub_env 0 []) (upload [] ''Dabc'' []) used_world =
     (Response \<lparr>body = Json [(''error'', ''No BIDS zip provided'')], status = 400\<rparr>, used_world) \<and>
   run_mriqc (stub_env 0 []) (upload [] ''Dabc'' []) used_world =
     run_mriqc (stub_env 0 []) \<lparr>files = [], form = []\<rparr> used_world"
proof -
  have h1: "files_get (upload [] ''Dabc'' []) ''bids_zip'' = Some \<lparr>filename = [], stream = ''Dabc''\<rparr>"
    by (simp add: files_get_def upload_def)
  have h2: "filename \<lparr>filename = [], stream = ''Dabc''\<rparr> = []" by simp
  note t = falsy_archive_is_bad_request [OF h1 h2, of "stub_env 0 []" used_world]
  have "run_mriqc (stub_env 0 []) (upload [] ''Dabc'' []) used_world =
          run_mriqc (stub_env 0 []) \<lparr>files = [], form = []\<rparr> used_world"
    using t [THEN conjunct2] by (simp add: upload_def)
  with t [THEN conjunct1] h1 h2 show ?thesis by blast
qed

subsection \<open>An archive without a directory\<close>

text \<open>
  C3: when the upload is present and steps 2 to 4 leave an upload workspace none of
  whose immediate children is a directory, the handler answers 400 with the JSON body
  \<^verbatim>\<open>{"error": "No BIDS directory found after unzipping."}\<close>. The calls of the
  request are the reset, the save and the extraction: the tool is not run.
\<close>

theorem no_directory_is_bad_request:
  assumes "files_get req ''bids_zip'' = Some f" and "filename f \<noteq> []"
    and "prepare E f w = (Inr (), w4)"
    and "iterdir UPLOAD_FOLDER (disk w4) = Inr items"
    and "\<forall>item \<in> set items. \<not> is_dir (disk w4) item"
  shows "run_mriqc E req w =
           (Response \<lparr>body = Json [(''error'', ''No BIDS directory found after unzipping.'')],
                      status = 400\<rparr>, w4)
         \<and> new_calls w w4 =
             [Rmtree UPLOAD_FOLDER, Rmtree OUTPUT_FOLDER,
              Makedirs UPLOAD_FOLDER, Makedirs OUTPUT_FOLDER,
              Save (path_join UPLOAD_FOLDER ''bids_data.zip''),
              Extractall (path_join UPLOAD_FOLDER ''bids_data.zip'') UPLOAD_FOLDER]
         \<and> (\<forall>cmd. Run cmd \<notin> set (new_calls w w4))"
proof -
  from assms(5) have "first_dir (disk w4) items = None" by (simp add: first_dir_None)
  with handler_prepared [OF assms(1-4)]
  have r: "run_mriqc E req w =
      (Response \<lparr>body = Json [(''error'', ''No BIDS directory found after unzipping.'')],
                 status = 400\<rparr>, w4)"
    by (simp add: jsonify_def)
  from prepare_ok [OF assms(3)] have c: "new_calls w w4 = prepared_calls"
    by (simp add: new_calls_def)
  show ?thesis
    using r c by (simp add: prepared_calls_def)
qed

theorem no_directory_is_bad_request_witness:
  "files_get (upload ''a.zip'' ''abc'' []) ''bids_zip'' = Some \<lparr>filename = ''a.zip'', stream = ''abc''\<rparr> \<and>
   filename \<lparr>filename = ''a.zip'', stream = ''abc''\<rparr> \<noteq> [] \<and>
   prepare (stub_env 0 []) \<lparr>filename = ''a.zip'', stream = ''abc''\<rparr> used_world =
     (Inr (), \<lparr>disk = extracted_disk ''abc'' [(''/tmp/mriqc_upload/readme.txt'', File ''abc'', 5)],
               calls = extracted_calls, now = 5\<rparr>) \<and>
   iterdir UPLOAD_FOLDER (extracted_disk ''abc'' [(''/tmp/mriqc_upload/readme.txt'', File ''abc'', 5)]) =
     Inr [''/tmp/mriqc_upload/bids_data.zip'', ''/tmp/mriqc_upload/readme.txt''] \<and>
   run_mriqc (stub_env 0 []) (upload ''a.zip'' ''abc'' []) used_world =
     (Response \<lparr>body = Json [(''error'', ''No BIDS directory found after unzipping.'')],
                status = 400\<rparr>,
      \<lparr>disk = extracted_disk ''abc'' [(''/tmp/mriqc_upload/readme.txt'', File ''abc'', 5)],
       calls = extracted_calls, now = 5\<rparr>)"
proof -
  let ?w4 = "\<lparr>disk = extracted_disk ''abc'' [(''/tmp/mriqc_upload/readme.txt'', File ''abc'', 5)],
              calls = extracted_calls, now = 5\<rparr>"
  have h1: "files_get (upload ''a.zip'' ''abc'' []) ''bids_zip'' = Some \<lparr>filename = ''a.zip'', stream = ''abc''\<rparr>"
    by (simp add: files_get_def upload_def)
  have h2: "filename \<lparr>filename = ''a.zip'', stream = ''abc''\<rparr> \<noteq> []" by simp
  have h3: "prepare (stub_env 0 []) \<lparr>filename = ''a.zip'', stream = ''abc''\<rparr> used_world = (Inr (), ?w4)"
    by (rule stub_prepare_flat)
  have h4: "iterdir UPLOAD_FOLDER (disk ?w4) =
              Inr [''/tmp/mriqc_upload/bids_data.zip'', ''/tmp/mriqc_upload/readme.txt'']"
    by (simp add: stub_iterdir_flat)
  have h5: "\<forall>item \<in> set [''/tmp/mriqc_upload/bids_data.zip'', ''/tmp/mriqc_upload/readme.txt''].
              \<not> is_dir (disk ?w4) item"
    by (simp add: is_dir_def extracted_disk_def)
  from no_directory_is_bad_request [OF h1 h2 h3 h4 h5] h1 h2 h3 h4
  show ?thesis by simp
qed

subsection \<open>A failing tool\<close>

text \<open>
  C4: when the tool is run and exits with a code other than 0, the handler answers 500
  with the JSON body \<^verbatim>\<open>{"error": "MRIQC failed", "stderr": ...}\<close> that carries the
  captured error text. The run of the tool is the last call of the request and the file
  system is as the tool left it: no archive is packed and none is sent.
\<close>

theorem tool_failure_is_server_error:
  assumes "files_get req ''bids_zip'' = Some f" and "filename f \<noteq> []"
    and "prepare E f w = (Inr (), w4)"
    and "iterdir UPLOAD_FOLDER (disk w4) = Inr items"
    and "first_dir (disk w4) items = Some root"
    and "subprocess_run E (mriqc_cmd E root (form_get req ''participant_label'' ''01''))
           (now w4) (disk w4) = Inr (r, d)"
    and "returncode r \<noteq> 0"
  shows "run_mriqc E req w =
           (Response \<lparr>body = Json [(''error'', ''MRIQC failed''), (''stderr'', stderr r)],
                      status = 500\<rparr>,
            \<lparr>disk = d,
             calls = calls w4 @ [Run (mriqc_cmd E root (form_get req ''participant_label'' ''01''))],
             now = now w4\<rparr>)"
  using handler_prepared [OF assms(1-4)] run_and_pack_nonzero [OF assms(6,7)] assms(5)
  by simp

theorem tool_failure_is_server_error_witness:
  "files_get (upload ''a.zip'' ''Dabc'' []) ''bids_zip'' = Some \<lparr>filename = ''a.zip'', stream = ''Dabc''\<rparr> \<and>
   subprocess_run (stub_env 1 ''boom'')
      (mriqc_cmd (stub_env 1 ''boom'') ''/tmp/mriqc_upload/ds''
         (form_get (upload ''a.zip'' ''Dabc'' []) ''participant_label'' ''01'')) 5
      (extracted_disk ''Dabc''
         [(''/tmp/mriqc_upload/ds'', Dir, 5), (''/tmp/mriqc_upload/ds/scan.nii'', File ''abc'', 5)]) =
     Inr (\<lparr>returncode = 1, stdout = [], stderr = ''boom''\<rparr>,
          extracted_disk ''Dabc''
            [(''/tmp/mriqc_upload/ds'', Dir, 5), (''/tmp/mriqc_upload/ds/scan.nii'', File ''abc'', 5)]) \<and>
   run_mriqc (stub_env 1 ''boom'') (upload ''a.zip'' ''Dabc'' []) used_world =
     (Response \<lparr>body = Json [(''error'', ''MRIQC failed''), (''stderr'', ''boom'')], status = 500\<rparr>,
      \<lparr>disk = extracted_disk ''Dabc''
                [(''/tmp/mriqc_upload/ds'', Dir, 5), (''/tmp/mriqc_upload/ds/scan.nii'', File ''abc'', 5)],
       calls = extracted_calls @ [Run (docker_cmd ''01'')], now = 5\<rparr>)"
proof -
  let ?d = "extracted_disk ''Dabc''
      [(''/tmp/mriqc_upload/ds'', Dir, 5), (''/tmp/mriqc_upload/ds/scan.nii'', File ''abc'', 5)]"
  let ?w4 = "\<lparr>disk = ?d, calls = extracted_calls, now = 5\<rparr>"
  let ?r = "\<lparr>returncode = 1, stdout = [], stderr = ''boom''\<rparr>"
  have h1: "files_get (upload ''a.zip'' ''Dabc'' []) ''bids_zip'' = Some \<lparr>filename = ''a.zip'', stream = ''Dabc''\<rparr>"
    by (simp add: files_get_def upload_def)
  have h2: "filename \<lparr>filename = ''a.zip'', stream = ''Dabc''\<rparr> \<noteq> []" by simp
  have h3: "prepare (stub_env 1 ''boom'') \<lparr>filename = ''a.zip'', stream = ''Dabc''\<rparr> used_world = (Inr (), ?w4)"
    by (rule stub_prepare_dir)
  have h4: "iterdir UPLOAD_FOLDER (disk ?w4) = Inr [''/tmp/mriqc_upload/bids_data.zip'', ''/tmp/mriqc_upload/ds'']"
    by (simp add: stub_iterdir_dir)
  have h5: "first_dir (disk ?w4) [''/tmp/mriqc_upload/bids_data.zip'', ''/tmp/mriqc_upload/ds'']
              = Some ''/tmp/mriqc_upload/ds''"
    using first_dir_stub by simp
  have h6: "subprocess_run (stub_env 1 ''boom'')
      (mriqc_cmd (stub_env 1 ''boom'') ''/tmp/mriqc_upload/ds''
         (form_get (upload ''a.zip'' ''Dabc'' []) ''participant_label'' ''01'')) (now ?w4) (disk ?w4)
       = Inr (?r, ?d)"
    by (simp add: stub_env_def stub_tool_def)
  have h7: "returncode ?r \<noteq> 0" by simp
  have c: "mriqc_cmd (stub_env 1 ''boom'') ''/tmp/mriqc_upload/ds''
         (form_get (upload ''a.zip'' ''Dabc'' []) ''participant_label'' ''01'') = docker_cmd ''01''"
    by (simp add: mriqc_cmd_def docker_cmd_def absolute_def OUTPUT_FOLDER_def form_get_def upload_def)
  from tool_failure_is_server_error [OF h1 h2 h3 h4 h5 h6 h7] h1 h6
  show ?thesis by (simp add: c)
qed

subsection \<open>The argument vector\<close>







subsection \<open>The reset of the workspaces\<close>

text \<open>
  C6: when the upload is present and neither workspace path is a regular file (the
  module creates both directories when it is imported), step 2 succeeds whether the
  directories exist or not, and it leaves both workspaces as empty directories. Steps 3
  and 4 work on that clean state, and the four calls of the reset are the first calls of
  the request, before any save or extraction: what an earlier request left under the
  workspaces is gone before this request stores anything there.
\<close>

theorem workspaces_reset_first:
  assumes "files_get req ''bids_zip'' = Some f" and "filename f \<noteq> []"
    and "\<not> is_file (disk w) UPLOAD_FOLDER" and "\<not> is_file (disk w) OUTPUT_FOLDER"
    and "run_mriqc E req w = (out, w')"
  shows "\<exists>w2 cs.
           clean_up w = (Inr (), w2) \<and>
           is_dir (disk w2) UPLOAD_FOLDER \<and> listing UPLOAD_FOLDER (disk w2) = [] \<and>
           is_dir (disk w2) OUTPUT_FOLDER \<and> listing OUTPUT_FOLDER (disk w2) = [] \<and>
           prepare E f w = save_and_unzip E f w2 \<and>
           new_calls w w2 = [Rmtree UPLOAD_FOLDER, Rmtree OUTPUT_FOLDER,
                             Makedirs UPLOAD_FOLDER, Makedirs OUTPUT_FOLDER] \<and>
           new_calls w w' = new_calls w w2 @ cs"
proof -
  let ?d = "filter (\<lambda>(q, e). \<not> at_or_below OUTPUT_FOLDER q \<and> \<not> at_or_below UPLOAD_FOLDER q) (disk w)
              @ [(UPLOAD_FOLDER, Dir, now w), (OUTPUT_FOLDER, Dir, now w)]"
  let ?w2 = "w\<lparr>disk := ?d, calls := calls w @ [Rmtree UPLOAD_FOLDER, Rmtree OUTPUT_FOLDER,
                          Makedirs UPLOAD_FOLDER, Makedirs OUTPUT_FOLDER]\<rparr>"
  have c: "clean_up w = (Inr (), ?w2)" by (rule clean_up_ok [OF assms(3,4)])
  have v: "view UPLOAD_FOLDER ?d = [(UPLOAD_FOLDER, Dir, now w)]"
    "view OUTPUT_FOLDER ?d = [(OUTPUT_FOLDER, Dir, now w)]"
    by (rule view_cleaned)+
  have du: "is_dir (disk ?w2) UPLOAD_FOLDER"
    using is_dir_view [of UPLOAD_FOLDER UPLOAD_FOLDER ?d] v(1)
    by (simp add: at_or_below_def) (simp add: is_dir_def)
  have dout: "is_dir (disk ?w2) OUTPUT_FOLDER"
    using is_dir_view [of OUTPUT_FOLDER OUTPUT_FOLDER ?d] v(2)
    by (simp add: at_or_below_def) (simp add: is_dir_def)
  have l: "listing UPLOAD_FOLDER (disk ?w2) = []" "listing OUTPUT_FOLDER (disk ?w2) = []"
    using listing_empty_dir [OF v(1)] listing_empty_dir [OF v(2)] by simp_all
  have p: "prepare E f w = save_and_unzip E f ?w2" by (simp add: prepare_def c)
  have n: "new_calls w ?w2 = [Rmtree UPLOAD_FOLDER, Rmtree OUTPUT_FOLDER,
                             Makedirs UPLOAD_FOLDER, Makedirs OUTPUT_FOLDER]"
    by (simp add: new_calls_def)
  obtain r w4 where p4: "prepare E f w = (r, w4)" by (cases "prepare E f w")
  with p have "save_and_unzip E f ?w2 = (r, w4)" by simp
  from calls_save_and_unzip [OF this] obtain cs1 where c1: "calls w4 = calls ?w2 @ cs1" by blast
  from calls_after_prepare [OF assms(1,2) p4 assms(5)] obtain cs2
    where c2: "calls w' = calls w4 @ cs2" by blast
  from c1 c2 have "new_calls w w' = new_calls w ?w2 @ (cs1 @ cs2)"
    by (simp add: new_calls_def)
  with c du dout l p n show ?thesis by blast
qed

theorem workspaces_reset_first_witness:
  "files_get (upload ''a.zip'' ''Dabc'' []) ''bids_zip'' = Some \<lparr>filename = ''a.zip'', stream = ''Dabc''\<rparr> \<and>
   \<not> is_file (disk half_world) UPLOAD_FOLDER \<and> \<not> is_file (disk half_world) OUTPUT_FOLDER \<and>
   map_of (disk half_world) OUTPUT_FOLDER = None \<and>
   (\<exists>w2 cs.
      clean_up half_world = (Inr (), w2) \<and>
      is_dir (disk w2) UPLOAD_FOLDER \<and> listing UPLOAD_FOLDER (disk w2) = [] \<and>
      is_dir (disk w2) OUTPUT_FOLDER \<and> listing OUTPUT_FOLDER (disk w2) = [] \<and>
      prepare (stub_env 0 []) \<lparr>filename = ''a.zip'', stream = ''Dabc''\<rparr> half_world =
        save_and_unzip (stub_env 0 []) \<lparr>filename = ''a.zip'', stream = ''Dabc''\<rparr> w2 \<and>
      new_calls half_world w2 = [Rmtree UPLOAD_FOLDER, Rmtree OUTPUT_FOLDER,
                                 Makedirs UPLOAD_FOLDER, Makedirs OUTPUT_FOLDER] \<and>
      new_calls half_world
        (snd (run_mriqc (stub_env 0 []) (upload ''a.zip'' ''Dabc'' []) half_world)) =
        new_calls half_world w2 @ cs)"
proof -
  let ?req = "upload ''a.zip'' ''Dabc'' []"
  obtain out w' where r: "run_mriqc (stub_env 0 []) ?req half_world = (out, w')"
    by (cases "run_mriqc (stub_env 0 []) ?req half_world")
  have h1: "files_get ?req ''bids_zip'' = Some \<lparr>filename = ''a.zip'', stream = ''Dabc''\<rparr>"
    by (simp add: files_get_def upload_def)
  have h2: "filename \<lparr>filename = ''a.zip'', stream = ''Dabc''\<rparr> \<noteq> []" by simp
  have h3: "\<not> is_file (disk half_world) UPLOAD_FOLDER"
    by (simp add: half_world_def is_file_def UPLOAD_FOLDER_def)
  have h4: "\<not> is_file (disk half_world) OUTPUT_FOLDER"
    by (simp add: half_world_def is_file_def OUTPUT_FOLDER_def)
  have h5: "map_of (disk half_world) OUTPUT_FOLDER = None"
    by (simp add: half_world_def OUTPUT_FOLDER_def)
  from workspaces_reset_first [OF h1 h2 h3 h4 r] h1 h3 h4 h5 r
  show ?thesis by simp
qed

subsection \<open>The result archive\<close>



subsection \<open>The same request twice\<close>

text \<open>The world after the first run of the stubs, one tick later.\<close>

lemma stub_run_later:
  "run_mriqc (stub_env 0 []) (upload ''a.zip'' ''Dabc'' [])
     ((snd (run_mriqc (stub_env 0 []) (upload ''a.zip'' ''Dabc'' []) used_world))\<lparr>now := 6\<rparr>) =
   (Response \<lparr>body = Attachment ''mriqc_results.zip''
                (zip_encode [(''report.html'', File ''01'', 6)]),
              status = 200\<rparr>,
    \<lparr>disk = [(''/tmp'', Dir, 0),
             (''/tmp/mriqc_results.zip'', File (zip_encode [(''report.html'', File ''01'', 6)]), 6),
             (''/tmp/mriqc_upload'', Dir, 6), (''/tmp/mriqc_output'', Dir, 6),
             (''/tmp/mriqc_upload/bids_data.zip'', File ''Dabc'', 6),
             (''/tmp/mriqc_upload/ds'', Dir, 6),
             (''/tmp/mriqc_upload/ds/scan.nii'', File ''abc'', 6),
             (''/tmp/mriqc_output/report.html'', File ''01'', 6)],
     calls = (extracted_calls @
               [Run (docker_cmd ''01''),
                MakeArchive ''/tmp/mriqc_results'' ''zip'' ''/tmp/mriqc_output'',
                SendFile ''/tmp/mriqc_results.zip'']) @
             (extracted_calls @
               [Run (docker_cmd ''01''),
                MakeArchive ''/tmp/mriqc_results'' ''zip'' ''/tmp/mriqc_output'',
                SendFile ''/tmp/mriqc_results.zip'']),
     now = 6\<rparr>)"
proof -
  have l: "form_get (upload ''a.zip'' ''Dabc'' []) ''participant_label'' ''01'' = ''01''"
    by (simp add: form_get_def upload_def)
  show ?thesis
    unfolding stub_run_ok l
    by (simp add: eval_defs extracted_disk_def extracted_calls_def docker_cmd_def)
qed

text \<open>
  C8, as it is stated, fails: the stub tool is deterministic (it writes the same report
  for the same arguments) and local, the first answer is 200, and the same request sent
  again one tick later is answered 200 with other bytes, because the archive records
  the time at which the tool wrote the report.
\<close>

theorem repeated_request_bodies_differ:
  "extract_is_local (stub_env 0 []) \<and> tool_is_local (stub_env 0 []) \<and>
   fst (run_mriqc (stub_env 0 []) (upload ''a.zip'' ''Dabc'' []) used_world) =
     Response \<lparr>body = Attachment ''mriqc_results.zip''
                 (zip_encode [(''report.html'', File ''01'', 5)]), status = 200\<rparr> \<and>
   fst (run_mriqc (stub_env 0 []) (upload ''a.zip'' ''Dabc'' [])
         ((snd (run_mriqc (stub_env 0 []) (upload ''a.zip'' ''Dabc'' []) used_world))\<lparr>now := 6\<rparr>)) =
     Response \<lparr>body = Attachment ''mriqc_results.zip''
                 (zip_encode [(''report.html'', File ''01'', 6)]), status = 200\<rparr> \<and>
   zip_encode [(''report.html'', File ''01'', 5)] \<noteq> zip_encode [(''report.html'', File ''01'', 6)]"
proof -
  have l: "form_get (upload ''a.zip'' ''Dabc'' []) ''participant_label'' ''01'' = ''01''"
    by (simp add: form_get_def upload_def)
  have 1: "fst (run_mriqc (stub_env 0 []) (upload ''a.zip'' ''Dabc'' []) used_world) =
     Response \<lparr>body = Attachment ''mriqc_results.zip''
                 (zip_encode [(''report.html'', File ''01'', 5)]), status = 200\<rparr>"
    unfolding stub_run_ok l by simp
  have 2: "fst (run_mriqc (stub_env 0 []) (upload ''a.zip'' ''Dabc'' [])
         ((snd (run_mriqc (stub_env 0 []) (upload ''a.zip'' ''Dabc'' []) used_world))\<lparr>now := 6\<rparr>)) =
     Response \<lparr>body = Attachment ''mriqc_results.zip''
                 (zip_encode [(''report.html'', File ''01'', 6)]), status = 200\<rparr>"
    unfolding stub_run_later by simp
  have 3: "zip_encode [(''report.html'', File ''01'', 5)] \<noteq>
           zip_encode [(''report.html'', File ''01'', 6::nat)]"
    using zip_encode_inj [of "[(''report.html'', File ''01'', 5)]" "[(''report.html'', File ''01'', 6)]"]
    by auto
  from stub_extract_is_local [of 0 "[]"] stub_tool_is_local [of 0 "[]"] 1 2 3
  show ?thesis by blast
qed

text \<open>
  C8, amended: with collaborators that are deterministic and local up to modification
  times, a request that was answered 200 is answered 200 again when it is sent again, at
  any later time, on the world the first run left; both bodies are archives, and read
  back they hold the same members, of the same kinds and with the same data, in the same
  order. They may differ in the modification times of the members, and so in their
  bytes.
\<close>

theorem repeated_request_same_members:
  assumes "extract_is_local E" and "tool_is_local E"
    and "run_mriqc E req w = (Response resp, w1)" and "status resp = 200"
  shows "\<exists>resp' w2 b b' l l'.
           run_mriqc E req (w1\<lparr>now := t\<rparr>) = (Response resp', w2) \<and> status resp' = 200 \<and>
           body resp = Attachment ''mriqc_results.zip'' b \<and>
           body resp' = Attachment ''mriqc_results.zip'' b' \<and>
           zip_decode b = Some l \<and> zip_decode b' = Some l' \<and>
           untimed l = untimed l'"
proof -
  let ?zp = "path_join UPLOAD_FOLDER ''bids_data.zip''"
  let ?rz = "''/tmp/mriqc_results.zip''"
  let ?subj = "form_get req ''participant_label'' ''01''"
  let ?w1 = "w1\<lparr>now := t\<rparr>"
  from success_only [OF assms(3,4)] obtain f w4 items root r d where
    h: "files_get req ''bids_zip'' = Some f" "filename f \<noteq> []"
       "prepare E f w = (Inr (), w4)"
       "iterdir UPLOAD_FOLDER (disk w4) = Inr items"
       "first_dir (disk w4) items = Some root"
       "subprocess_run E (mriqc_cmd E root ?subj) (now w4) (disk w4) = Inr (r, d)"
       "returncode r = 0" "\<not> is_dir d ?rz"
    by blast
  let ?z = "zip_encode (output_members d)"
  from success_intro [OF h] assms(3)
  have resp: "resp = \<lparr>body = Attachment ''mriqc_results.zip'' ?z, status = 200\<rparr>"
    and w1: "disk w1 = AList.update ?rz (File ?z, now w4) d"
    by auto
  note stays = extract_local_stays [OF assms(1)]
  \<comment> \<open>the first request\<close>
  from prepare_ok [OF h(3)]
  have x1: "extractall E ?zp UPLOAD_FOLDER (now w) (staged f (now w) (disk w)) = Inr (disk w4)"
    by simp
  have r4: "rest UPLOAD_FOLDER (disk w4) = rest UPLOAD_FOLDER (staged f (now w) (disk w))"
    by (rule extract_rest [OF stays x1])
  have r5: "rest OUTPUT_FOLDER d = rest OUTPUT_FOLDER (disk w4)"
    by (rule tool_local_rest [OF assms(2) h(6)])
  have vo4: "view OUTPUT_FOLDER (disk w4) = [(OUTPUT_FOLDER, Dir, now w)]"
    by (rule output_empty_when_tool_starts(1) [OF stays h(3)])
  \<comment> \<open>the workspaces are directories when the second request starts\<close>
  have "map_of d UPLOAD_FOLDER = map_of (disk w4) UPLOAD_FOLDER"
    by (rule map_of_of_rest [OF r5]) (simp add: not_below)
  with iterdir_is_dir [OF h(4)] have "is_dir d UPLOAD_FOLDER" by (simp add: is_dir_def)
  then have "is_dir (disk ?w1) UPLOAD_FOLDER"
    by (simp add: w1 is_dir_def map_of_update_other UPLOAD_FOLDER_def)
  then have u1: "\<not> is_file (disk ?w1) UPLOAD_FOLDER" by (rule dir_not_file)
  have "map_of d OUTPUT_FOLDER = map_of (disk w4) OUTPUT_FOLDER"
    by (rule map_of_of_rest [OF r5]) (rule not_below_self)
  with output_empty_when_tool_starts(2) [OF stays h(3)]
  have "is_dir d OUTPUT_FOLDER" by (simp add: is_dir_def)
  then have "is_dir (disk ?w1) OUTPUT_FOLDER"
    by (simp add: w1 is_dir_def map_of_update_other OUTPUT_FOLDER_def)
  then have o1: "\<not> is_file (disk ?w1) OUTPUT_FOLDER" by (rule dir_not_file)
  \<comment> \<open>extraction sees the same upload workspace, up to times\<close>
  have "untimed (view UPLOAD_FOLDER (staged f (now w) (disk w))) =
        untimed (view UPLOAD_FOLDER (staged f t (disk ?w1)))"
    by (simp add: view_staged untimed_def)
  from extract_local_same [OF assms(1) this x1, of t] obtain d4' where
    x2: "extractall E ?zp UPLOAD_FOLDER t (staged f t (disk ?w1)) = Inr d4'"
    and vu: "untimed (view UPLOAD_FOLDER (disk w4)) = untimed (view UPLOAD_FOLDER d4')" by blast
  let ?w4' = "?w1\<lparr>disk := d4', calls := calls ?w1 @ prepared_calls\<rparr>"
  have p2: "prepare E f ?w1 = (Inr (), ?w4')"
    using x2 by (simp add: prepare_eq [OF u1 o1])
  have r4': "rest UPLOAD_FOLDER d4' = rest UPLOAD_FOLDER (staged f t (disk ?w1))"
    by (rule extract_rest [OF stays x2])
  have "view OUTPUT_FOLDER d4' = [(OUTPUT_FOLDER, Dir, t)]"
    using view_output_of_rest_upload [OF r4'] by (simp add: view_staged)
  with vo4 have vo: "untimed (view OUTPUT_FOLDER (disk w4)) = untimed (view OUTPUT_FOLDER d4')"
    by (simp add: untimed_def)
  \<comment> \<open>the same input root is found\<close>
  have i2: "iterdir UPLOAD_FOLDER (disk ?w4') = Inr items"
    using iterdir_of_untimed_view [OF vu] h(4) by simp
  have "\<forall>q \<in> set items. at_or_below UPLOAD_FOLDER q"
    using iterdir_children [OF h(4)] child_at_or_below by blast
  from first_dir_of_untimed_view [OF vu this] h(5)
  have f2: "first_dir (disk ?w4') items = Some root" by simp
  \<comment> \<open>the tool sees the same mounts, up to times\<close>
  from tool_local_same [OF assms(2) vu vo h(6), of t] obtain d' where
    t2: "subprocess_run E (mriqc_cmd E root ?subj) (now ?w4') (disk ?w4') = Inr (r, d')"
    and vd: "untimed (view OUTPUT_FOLDER d) = untimed (view OUTPUT_FOLDER d')" by auto
  have r5': "rest OUTPUT_FOLDER d' = rest OUTPUT_FOLDER d4'"
    using tool_local_rest [OF assms(2)] t2 by simp
  \<comment> \<open>the archive of the first request is a regular file, and is replaced\<close>
  have "map_of d' ?rz = map_of d4' ?rz"
    by (rule map_of_of_rest [OF r5']) (simp add: not_below)
  also have "\<dots> = map_of (staged f t (disk ?w1)) ?rz"
    by (rule map_of_of_rest [OF r4']) (simp add: not_below)
  also have "\<dots> = map_of (disk ?w1) ?rz"
    by (rule map_of_staged) simp_all
  also have "\<dots> = Some (File ?z, now w4)"
    by (simp add: w1 update_conv')
  finally have nz: "\<not> is_dir d' ?rz" by (simp add: is_dir_def)
  have m: "untimed (output_members d) = untimed (output_members d')"
    by (rule output_members_of_untimed_view [OF vd])
  let ?resp' = "\<lparr>body = Attachment ''mriqc_results.zip'' (zip_encode (output_members d')),
                  status = 200\<rparr>"
  from success_intro [OF h(1,2) p2 i2 f2 t2 h(7) nz]
  obtain w2 where "run_mriqc E req ?w1 = (Response ?resp', w2)" by blast
  moreover have "status ?resp' = 200" by simp
  moreover have "body resp = Attachment ''mriqc_results.zip'' ?z" by (simp add: resp)
  moreover have "body ?resp' = Attachment ''mriqc_results.zip'' (zip_encode (output_members d'))"
    by simp
  moreover note zip_round_trip [of "output_members d"] zip_round_trip [of "output_members d'"] m
  ultimately show ?thesis by blast
qed

text \<open>The stubs, one tick later: the report is the same, its time is not.\<close>

theorem repeated_request_same_members_witness:
  "extract_is_local (stub_env 0 []) \<and> tool_is_local (stub_env 0 []) \<and>
   fst (run_mriqc (stub_env 0 []) (upload ''a.zip'' ''Dabc'' []) used_world) =
     Response \<lparr>body = Attachment ''mriqc_results.zip''
                 (zip_encode [(''report.html'', File ''01'', 5)]), status = 200\<rparr> \<and>
   (\<exists>resp' w2 b b' l l'.
      run_mriqc (stub_env 0 []) (upload ''a.zip'' ''Dabc'' [])
        ((snd (run_mriqc (stub_env 0 []) (upload ''a.zip'' ''Dabc'' []) used_world))\<lparr>now := 6\<rparr>) =
        (Response resp', w2) \<and> status resp' = 200 \<and>
      Attachment ''mriqc_results.zip'' (zip_encode [(''report.html'', File ''01'', 5)]) =
        Attachment ''mriqc_results.zip'' b \<and>
      body resp' = Attachment ''mriqc_results.zip'' b' \<and>
      zip_decode b = Some l \<and> zip_decode b' = Some l' \<and> untimed l = untimed l')"
proof -
  let ?req = "upload ''a.zip'' ''Dabc'' []"
  let ?resp = "\<lparr>body = Attachment ''mriqc_results.zip''
                 (zip_encode [(''report.html'', File ''01'', 5)]), status = 200\<rparr>"
  have l: "form_get ?req ''participant_label'' ''01'' = ''01''"
    by (simp add: form_get_def upload_def)
  obtain out w1 where r: "run_mriqc (stub_env 0 []) ?req used_world = (out, w1)"
    by (cases "run_mriqc (stub_env 0 []) ?req used_world")
  then have o: "out = Response ?resp"
    unfolding stub_run_ok l by simp
  with r have r': "run_mriqc (stub_env 0 []) ?req used_world = (Response ?resp, w1)" by simp
  have s: "status ?resp = 200" by simp
  from repeated_request_same_members
         [OF stub_extract_is_local stub_tool_is_local r' s, of 6]
       stub_extract_is_local [of 0 "[]"] stub_tool_is_local [of 0 "[]"] r'
  show ?thesis by simp
qed

end
